theory Spec2Isabelle
  imports Complex_Main "HOL-Library.AList" "HOL-Library.Multiset"
begin

section \<open>Data model (types.ts)\<close>

text \<open>
  The interfaces of \<^verbatim>\<open>types.ts\<close> as records. A JavaScript \<^verbatim>\<open>number\<close> that
  holds a quantity is modelled as an unbounded \<open>int\<close> (the amounts that reach the ledger
  come from \<^verbatim>\<open>parseInt\<close>; the rounding of doubles beyond \<open>2^53\<close> is outside the model).
  Field names that several interfaces share carry a suffix: \<open>_i\<close> for an inventory item,
  \<open>_d\<close> for a department, \<open>_r\<close> for a transaction record.
\<close>

datatype WarehouseType = Warehouse1 | Warehouse2

datatype TransType = In | Out

record InventoryItem =
  id_i :: string
  name_i :: string
  image :: string
  unit_i :: string
  quantity :: int
  minStock :: "int option"
  location :: WarehouseType
  productionDate :: "string option"
  expiryDate :: "string option"
  lastUpdated :: string

record Department =
  id_d :: string
  name_d :: string

text \<open>One cell of the matrix, \<^verbatim>\<open>{ in: number, out: number }\<close>.\<close>

record DeptEntry =
  inQty :: int
  outQty :: int

text \<open>
  \<^verbatim>\<open>TransactionMatrix\<close> is a JavaScript object of objects. It is modelled as an association
  list in insertion order, the order in which \<^verbatim>\<open>Object.entries\<close> enumerates string keys;
  a JavaScript object holds every key once, which is the condition \<open>wfMatrix\<close> below.
  (Keys are taken to be ordinary identifiers such as the UUIDs the application generates:
  neither array indices, which JavaScript enumerates first, nor names of
  \<^verbatim>\<open>Object.prototype\<close>.)
\<close>

type_synonym DeptTrans = "(string \<times> DeptEntry) list"

type_synonym TransactionMatrix = "(string \<times> DeptTrans) list"

record TransactionRecord =
  id_r :: string
  date :: string
  itemId :: string
  itemName :: string
  itemImage :: string
  departmentId :: string
  departmentName :: string
  type_r :: TransType
  quantity_r :: int
  timestamp :: string

definition wfMatrix :: "TransactionMatrix \<Rightarrow> bool" where
  "wfMatrix m \<longleftrightarrow> distinct (map fst m) \<and> list_all (\<lambda>p. distinct (map fst (snd p))) m"

section \<open>The application state (App component)\<close>

record AppState =
  items :: "InventoryItem list"
  departments :: "Department list"
  history :: "TransactionRecord list"

text \<open>\<^verbatim>\<open>Array.prototype.findIndex\<close>; \<open>None\<close> stands for the result \<open>-1\<close>.\<close>

fun findIndex :: "('a \<Rightarrow> bool) \<Rightarrow> 'a list \<Rightarrow> nat option" where
  "findIndex P [] = None"
| "findIndex P (x # xs) = (if P x then Some 0 else map_option Suc (findIndex P xs))"

subsection \<open>Commit: handleUpdateInventory\<close>

text \<open>
  The two sources of non-determinism are explicit inputs: \<open>uuid k\<close> is the value of the
  \<open>k\<close>-th call of \<^verbatim>\<open>crypto.randomUUID()\<close>, and \<open>ts\<close> is the value of
  \<^verbatim>\<open>new Date().toISOString()\<close> read once per commit. The counter of UUIDs drawn so far is
  threaded through.
\<close>

definition deptNameOf :: "Department list \<Rightarrow> string \<Rightarrow> string" where
  "deptNameOf ds deptId =
     (case find (\<lambda>d. id_d d = deptId) ds of Some dept \<Rightarrow> name_d dept | None \<Rightarrow> ''Unknown Dept'')"

definition mkRecord ::
  "string \<Rightarrow> string \<Rightarrow> string \<Rightarrow> string \<Rightarrow> InventoryItem \<Rightarrow> string \<Rightarrow> string \<Rightarrow> TransType \<Rightarrow> int
     \<Rightarrow> TransactionRecord" where
  "mkRecord rid dt ts iid item deptId deptName ty q =
     \<lparr> id_r = rid, date = dt, itemId = iid, itemName = name_i item, itemImage = image item,
       departmentId = deptId, departmentName = deptName, type_r = ty, quantity_r = q,
       timestamp = ts \<rparr>"

text \<open>
  The inner \<^verbatim>\<open>Object.entries(deptTrans).forEach\<close>: the accumulator is
  \<^verbatim>\<open>netChange\<close>, the array \<^verbatim>\<open>newHistoryRecords\<close> and the UUID counter.
\<close>

fun deptLoop ::
  "(nat \<Rightarrow> string) \<Rightarrow> Department list \<Rightarrow> string \<Rightarrow> string \<Rightarrow> string \<Rightarrow> InventoryItem \<Rightarrow> DeptTrans
     \<Rightarrow> int \<times> TransactionRecord list \<times> nat \<Rightarrow> int \<times> TransactionRecord list \<times> nat" where
  "deptLoop uuid ds dt ts iid item [] acc = acc"
| "deptLoop uuid ds dt ts iid item ((deptId, e) # rest) (netChange, recs, n) =
     (let deptName = deptNameOf ds deptId;
          netChange1 = netChange + (inQty e - outQty e);
          (recs1, n1) =
             (if inQty e > 0
              then (recs @ [mkRecord (uuid n) dt ts iid item deptId deptName In (inQty e)], n + 1)
              else (recs, n));
          (recs2, n2) =
             (if outQty e > 0
              then (recs1 @ [mkRecord (uuid n1) dt ts iid item deptId deptName Out (outQty e)], n1 + 1)
              else (recs1, n1))
      in deptLoop uuid ds dt ts iid item rest (netChange1, recs2, n2))"

text \<open>
  The outer \<^verbatim>\<open>Object.entries(matrix).forEach\<close>: the accumulator is the array
  \<^verbatim>\<open>newItems\<close>, \<^verbatim>\<open>newHistoryRecords\<close> and the UUID counter. An item id that
  \<^verbatim>\<open>findIndex\<close> does not find (\<^verbatim>\<open>itemIndex > -1\<close> is false) leaves all three as
  they are.
\<close>

fun itemLoop ::
  "(nat \<Rightarrow> string) \<Rightarrow> Department list \<Rightarrow> string \<Rightarrow> string \<Rightarrow> TransactionMatrix
     \<Rightarrow> InventoryItem list \<times> TransactionRecord list \<times> nat
     \<Rightarrow> InventoryItem list \<times> TransactionRecord list \<times> nat" where
  "itemLoop uuid ds dt ts [] acc = acc"
| "itemLoop uuid ds dt ts ((iid, deptTrans) # rest) (newItems, recs, n) =
     (case findIndex (\<lambda>i. id_i i = iid) newItems of
        None \<Rightarrow> itemLoop uuid ds dt ts rest (newItems, recs, n)
      | Some itemIndex \<Rightarrow>
          (let item = newItems ! itemIndex;
               (netChange, recs1, n1) = deptLoop uuid ds dt ts iid item deptTrans (0, recs, n)
           in itemLoop uuid ds dt ts rest
                (newItems[itemIndex := (newItems ! itemIndex)
                    \<lparr> quantity := quantity (newItems ! itemIndex) + netChange,
                      lastUpdated := ts \<rparr>],
                 recs1, n1)))"

definition handleUpdateInventory ::
  "(nat \<Rightarrow> string) \<Rightarrow> string \<Rightarrow> TransactionMatrix \<Rightarrow> string \<Rightarrow> nat \<times> AppState \<Rightarrow> nat \<times> AppState" where
  "handleUpdateInventory uuid ts matrix dt ns =
     (case ns of (n, s) \<Rightarrow>
        (case itemLoop uuid (departments s) dt ts matrix (items s, [], n) of
           (newItems, newHistoryRecords, n1) \<Rightarrow>
             (n1, s\<lparr> items := newItems, history := newHistoryRecords @ history s \<rparr>)))"

text \<open>A sequence of commits, each with its own timestamp, draft matrix and date.\<close>

fun commitAll ::
  "(nat \<Rightarrow> string) \<Rightarrow> (string \<times> TransactionMatrix \<times> string) list \<Rightarrow> nat \<times> AppState
     \<Rightarrow> nat \<times> AppState" where
  "commitAll uuid [] ns = ns"
| "commitAll uuid ((ts, matrix, dt) # cs) ns =
     commitAll uuid cs (handleUpdateInventory uuid ts matrix dt ns)"


subsection \<open>Reversal: handleDeleteHistoryRecord\<close>

text \<open>
  The answer of the \<^verbatim>\<open>confirm\<close> dialog is the input \<open>shouldRevertInventory\<close>. A record id
  that \<^verbatim>\<open>history.find\<close> does not find returns at once.
\<close>

definition handleDeleteHistoryRecord :: "string \<Rightarrow> bool \<Rightarrow> AppState \<Rightarrow> AppState" where
  "handleDeleteHistoryRecord recordId shouldRevertInventory s =
     (case find (\<lambda>r. id_r r = recordId) (history s) of
        None \<Rightarrow> s
      | Some record \<Rightarrow>
          (let s1 = s\<lparr> history := filter (\<lambda>r. id_r r \<noteq> recordId) (history s) \<rparr>
           in if shouldRevertInventory
              then s1\<lparr> items := map (\<lambda>item.
                       if id_i item = itemId record
                       then (let reversal = (if type_r record = In then - quantity_r record
                                             else quantity_r record)
                             in item\<lparr> quantity := quantity item + reversal \<rparr>)
                       else item) (items s1) \<rparr>
              else s1))"

section \<open>The transaction table (TransactionTable component)\<close>

subsection \<open>Replay of the committed history: reconstructHistoryForDate\<close>

text \<open>
  \<^verbatim>\<open>Set.prototype.add\<close> on an insertion-ordered set, and \<^verbatim>\<open>Array.from(new Set(xs))\<close>,
  which keeps the first occurrence of every element.
\<close>

definition setAdd :: "'a \<Rightarrow> 'a list \<Rightarrow> 'a list" where
  "setAdd x xs = (if x \<in> set xs then xs else xs @ [x])"

definition arrayFromSet :: "'a list \<Rightarrow> 'a list" where
  "arrayFromSet xs = foldl (\<lambda>acc x. setAdd x acc) [] xs"

text \<open>
  The body of \<^verbatim>\<open>historyForDate.forEach\<close> on the matrix: a missing row is created empty,
  a missing cell as \<^verbatim>\<open>{ in: 0, out: 0 }\<close>, then the quantity is added to the side the
  record's type names. An assignment to a key of a JavaScript object keeps the key's place
  or appends a new key, which is \<open>AList.update\<close>.
\<close>

definition addRecord :: "TransactionRecord \<Rightarrow> TransactionMatrix \<Rightarrow> TransactionMatrix" where
  "addRecord h matrix =
     (let row = (case map_of matrix (itemId h) of None \<Rightarrow> [] | Some r \<Rightarrow> r);
          cell = (case map_of row (departmentId h) of
                    None \<Rightarrow> \<lparr> inQty = 0, outQty = 0 \<rparr> | Some c \<Rightarrow> c);
          cell1 = (if type_r h = In then cell\<lparr> inQty := inQty cell + quantity_r h \<rparr> else cell);
          cell2 = (if type_r h = Out then cell1\<lparr> outQty := outQty cell1 + quantity_r h \<rparr> else cell1)
      in AList.update (itemId h) (AList.update (departmentId h) cell2 row) matrix)"

text \<open>
  The function returns the matrix it passes to \<^verbatim>\<open>setCommittedTransactions\<close> together
  with the array of item ids it returns.
\<close>

definition reconstructHistoryForDate ::
  "TransactionRecord list \<Rightarrow> string \<Rightarrow> TransactionMatrix \<times> string list" where
  "reconstructHistoryForDate hist targetDate =
     (let historyForDate = filter (\<lambda>h. date h = targetDate) hist
      in (foldl (\<lambda>matrix h. addRecord h matrix) [] historyForDate,
          foldl (\<lambda>historyItemIds h. setAdd (itemId h) historyItemIds) [] historyForDate))"

definition replayCommitted :: "TransactionRecord list \<Rightarrow> string \<Rightarrow> TransactionMatrix" where
  "replayCommitted hist targetDate = fst (reconstructHistoryForDate hist targetDate)"

subsection \<open>Component state\<close>

text \<open>
  The row of the inline form (\<^verbatim>\<open>activeRows[itemId]\<close>), the per-date draft snapshot and the
  state cells of the component. \<^verbatim>\<open>activeRows\<close> and \<^verbatim>\<open>drafts\<close> are objects that are only
  read and written by key, hence maps. The fields of a snapshot carry the suffix \<open>_s\<close>;
  the state cell \<^verbatim>\<open>date\<close> is \<open>date_t\<close>.
\<close>

record FormRow =
  deptId :: string
  type_f :: TransType
  qty :: string

record DraftSnapshot =
  selectedItemIds_s :: "string list"
  newTransactions_s :: TransactionMatrix
  activeRows_s :: "string \<rightharpoonup> FormRow"

record TableState =
  selectedItemIds :: "string list"
  committedTransactions :: TransactionMatrix
  newTransactions :: TransactionMatrix
  drafts :: "string \<rightharpoonup> DraftSnapshot"
  activeRows :: "string \<rightharpoonup> FormRow"
  date_t :: string

subsection \<open>Switching the date: switchDate\<close>

text \<open>
  \<^verbatim>\<open>setDrafts\<close> stores the snapshot of the outgoing date, but \<^verbatim>\<open>drafts[newDate]\<close> is read
  from the value the component rendered with, that is from \<open>drafts st\<close> before the update.
\<close>

definition switchDate :: "TransactionRecord list \<Rightarrow> string \<Rightarrow> TableState \<Rightarrow> TableState" where
  "switchDate hist newDate st =
     (let snapshot = \<lparr> selectedItemIds_s = selectedItemIds st,
                       newTransactions_s = newTransactions st,
                       activeRows_s = activeRows st \<rparr>;
          drafts1 = (drafts st)(date_t st \<mapsto> snapshot);
          committed = fst (reconstructHistoryForDate hist newDate);
          historyItems = snd (reconstructHistoryForDate hist newDate)
      in (case drafts st newDate of
            Some draft \<Rightarrow>
              st\<lparr> drafts := drafts1, date_t := newDate, committedTransactions := committed,
                  selectedItemIds := arrayFromSet (historyItems @ selectedItemIds_s draft),
                  newTransactions := newTransactions_s draft,
                  activeRows := activeRows_s draft \<rparr>
          | None \<Rightarrow>
              st\<lparr> drafts := drafts1, date_t := newDate, committedTransactions := committed,
                  selectedItemIds := historyItems,
                  newTransactions := [],
                  activeRows := Map.empty \<rparr>))"

subsection \<open>Staging: saveTransaction, removeDraftTransaction, handleRemoveItemRow\<close>

text \<open>
  \<^verbatim>\<open>parseInt(string)\<close> without a radix, after ECMAScript: leading white space is dropped,
  then an optional sign, then an optional \<^verbatim>\<open>0x\<close> prefix that selects radix 16; the value
  is that of the longest prefix of digits, and \<open>None\<close> (for \<^verbatim>\<open>NaN\<close>) when there is no digit.
\<close>

definition isWhiteSpace :: "char \<Rightarrow> bool" where
  "isWhiteSpace c \<longleftrightarrow> c \<in> set [CHR '' '', CHR 0x09, CHR 0x0A, CHR 0x0B, CHR 0x0C, CHR 0x0D]"

definition digitValue :: "nat \<Rightarrow> char \<Rightarrow> nat option" where
  "digitValue radix c =
     (case findIndex (\<lambda>x. x = c) ''0123456789abcdef'' of
        Some v \<Rightarrow> (if v < radix then Some v else None)
      | None \<Rightarrow>
          (case findIndex (\<lambda>x. x = c) ''ABCDEF'' of
             Some v \<Rightarrow> (if v + 10 < radix then Some (v + 10) else None)
           | None \<Rightarrow> None))"

fun digitsValue :: "nat \<Rightarrow> string \<Rightarrow> nat option \<Rightarrow> nat option" where
  "digitsValue radix [] acc = acc"
| "digitsValue radix (c # cs) acc =
     (case digitValue radix c of
        None \<Rightarrow> acc
      | Some v \<Rightarrow> digitsValue radix cs (Some ((case acc of None \<Rightarrow> 0 | Some a \<Rightarrow> a) * radix + v)))"

definition parseInt :: "string \<Rightarrow> int option" where
  "parseInt str =
     (let s1 = dropWhile isWhiteSpace str;
          neg = (case s1 of c # _ \<Rightarrow> c = CHR ''-'' | [] \<Rightarrow> False);
          s2 = (case s1 of c # r \<Rightarrow> (if c = CHR ''-'' \<or> c = CHR ''+'' then r else s1) | [] \<Rightarrow> []);
          hex = (take 2 s2 = ''0x'' \<or> take 2 s2 = ''0X'');
          s3 = (if hex then drop 2 s2 else s2)
      in (case digitsValue (if hex then 16 else 10) s3 None of
            None \<Rightarrow> None
          | Some v \<Rightarrow> Some (if neg then - int v else int v)))"

definition saveTransaction :: "string \<Rightarrow> TableState \<Rightarrow> TableState" where
  "saveTransaction iid st =
     (case activeRows st iid of
        None \<Rightarrow> st
      | Some formState \<Rightarrow>
          if deptId formState = [] \<or> qty formState = [] then st
          else (case parseInt (qty formState) of
                  None \<Rightarrow> st
                | Some qtyNum \<Rightarrow>
                    if qtyNum \<le> 0 then st
                    else (let prev = newTransactions st;
                              itemTrans = (case map_of prev iid of Some t \<Rightarrow> t | None \<Rightarrow> []);
                              deptTrans = (case map_of itemTrans (deptId formState) of
                                             Some c \<Rightarrow> c | None \<Rightarrow> \<lparr> inQty = 0, outQty = 0 \<rparr>);
                              cell = (case type_f formState of
                                        In \<Rightarrow> deptTrans\<lparr> inQty := inQty deptTrans + qtyNum \<rparr>
                                      | Out \<Rightarrow> deptTrans\<lparr> outQty := outQty deptTrans + qtyNum \<rparr>)
                          in st\<lparr> newTransactions :=
                                   AList.update iid (AList.update (deptId formState) cell itemTrans) prev,
                                 activeRows := (activeRows st)(iid := None) \<rparr>)))"

definition removeDraftTransaction :: "string \<Rightarrow> string \<Rightarrow> TransType \<Rightarrow> TableState \<Rightarrow> TableState" where
  "removeDraftTransaction iid did ty st =
     (let prev = newTransactions st;
          newItemTrans = (case map_of prev iid of Some t \<Rightarrow> t | None \<Rightarrow> []);
          newItemTrans1 =
            (case map_of newItemTrans did of
               None \<Rightarrow> newItemTrans
             | Some c \<Rightarrow>
                 (let c1 = (case ty of In \<Rightarrow> c\<lparr> inQty := 0 \<rparr> | Out \<Rightarrow> c\<lparr> outQty := 0 \<rparr>)
                  in if inQty c1 = 0 \<and> outQty c1 = 0
                     then AList.delete did newItemTrans
                     else AList.update did c1 newItemTrans))
      in st\<lparr> newTransactions := AList.update iid newItemTrans1 prev \<rparr>)"

text \<open>
  The inline form: opening it, closing it, and the three controls that edit the open row
  (they are rendered only while the item has an open row, \<^verbatim>\<open>hasActiveForm\<close>).
\<close>

definition startAddingTransaction :: "Department list \<Rightarrow> string \<Rightarrow> TableState \<Rightarrow> TableState" where
  "startAddingTransaction ds iid st =
     st\<lparr> activeRows := (activeRows st)(iid \<mapsto>
          \<lparr> deptId = (case ds of [] \<Rightarrow> [] | d # _ \<Rightarrow> id_d d), type_f = Out, qty = [] \<rparr>) \<rparr>"

definition cancelAddingTransaction :: "string \<Rightarrow> TableState \<Rightarrow> TableState" where
  "cancelAddingTransaction iid st = st\<lparr> activeRows := (activeRows st)(iid := None) \<rparr>"

definition setRowDeptId :: "string \<Rightarrow> string \<Rightarrow> TableState \<Rightarrow> TableState" where
  "setRowDeptId iid v st =
     (case activeRows st iid of
        None \<Rightarrow> st
      | Some row \<Rightarrow> st\<lparr> activeRows := (activeRows st)(iid \<mapsto> row\<lparr> deptId := v \<rparr>) \<rparr>)"

definition setRowType :: "string \<Rightarrow> TransType \<Rightarrow> TableState \<Rightarrow> TableState" where
  "setRowType iid v st =
     (case activeRows st iid of
        None \<Rightarrow> st
      | Some row \<Rightarrow> st\<lparr> activeRows := (activeRows st)(iid \<mapsto> row\<lparr> type_f := v \<rparr>) \<rparr>)"

definition setRowQty :: "string \<Rightarrow> string \<Rightarrow> TableState \<Rightarrow> TableState" where
  "setRowQty iid v st =
     (case activeRows st iid of
        None \<Rightarrow> st
      | Some row \<Rightarrow> st\<lparr> activeRows := (activeRows st)(iid \<mapsto> row\<lparr> qty := v \<rparr>) \<rparr>)"

definition handleAddItemRow :: "string \<Rightarrow> TableState \<Rightarrow> TableState" where
  "handleAddItemRow selectedAddItem st =
     (if selectedAddItem \<noteq> [] \<and> selectedAddItem \<notin> set (selectedItemIds st)
      then st\<lparr> selectedItemIds := selectedItemIds st @ [selectedAddItem] \<rparr>
      else st)"

text \<open>\<open>confirmed\<close> is the answer of the dialog shown when the item has committed records.\<close>

definition handleRemoveItemRow :: "string \<Rightarrow> bool \<Rightarrow> TableState \<Rightarrow> TableState" where
  "handleRemoveItemRow iid confirmed st =
     (if map_of (committedTransactions st) iid \<noteq> None \<and> \<not> confirmed then st
      else st\<lparr> selectedItemIds := filter (\<lambda>itemId. itemId \<noteq> iid) (selectedItemIds st),
               newTransactions := AList.delete iid (newTransactions st) \<rparr>)"

text \<open>
  The staging commands of the table, and a sequence of them run on the whole system state
  (UUID counter, application state, component state): the component receives the ledger as
  a read-only prop, so a staging command returns the application state it was given.
\<close>

datatype StageOp =
    StartAdding string
  | CancelAdding string
  | SetDeptId string string
  | SetType string TransType
  | SetQty string string
  | AddItemRow string
  | Save string
  | RemoveDraft string string TransType
  | RemoveItemRow string bool

fun stage :: "Department list \<Rightarrow> StageOp \<Rightarrow> TableState \<Rightarrow> TableState" where
  "stage ds (StartAdding iid) st = startAddingTransaction ds iid st"
| "stage ds (CancelAdding iid) st = cancelAddingTransaction iid st"
| "stage ds (SetDeptId iid v) st = setRowDeptId iid v st"
| "stage ds (SetType iid v) st = setRowType iid v st"
| "stage ds (SetQty iid v) st = setRowQty iid v st"
| "stage ds (AddItemRow iid) st = handleAddItemRow iid st"
| "stage ds (Save iid) st = saveTransaction iid st"
| "stage ds (RemoveDraft iid did ty) st = removeDraftTransaction iid did ty st"
| "stage ds (RemoveItemRow iid confirmed) st = handleRemoveItemRow iid confirmed st"

fun stageAll :: "StageOp list \<Rightarrow> nat \<times> AppState \<times> TableState \<Rightarrow> nat \<times> AppState \<times> TableState" where
  "stageAll [] w = w"
| "stageAll (op # ops) (n, s, st) = stageAll ops (n, s, stage (departments s) op st)"

subsection \<open>Submitting the draft: handleSubmit\<close>

text \<open>
  The whole system state is the application state, the component state and the UUID
  counter. \<open>handleSubmit\<close> returns at once on a draft matrix without keys; otherwise it
  commits, clears the draft and the snapshot of the date, and the effect on \<^verbatim>\<open>[history]\<close>
  replays the date and adds the history's items to the selection.
\<close>

definition historyEffect :: "TransactionRecord list \<Rightarrow> TableState \<Rightarrow> TableState" where
  "historyEffect hist st =
     (let committed = fst (reconstructHistoryForDate hist (date_t st));
          historyItems = snd (reconstructHistoryForDate hist (date_t st))
      in st\<lparr> committedTransactions := committed,
             selectedItemIds := (if historyItems \<noteq> []
                                 then arrayFromSet (selectedItemIds st @ historyItems)
                                 else selectedItemIds st) \<rparr>)"

definition handleSubmit ::
  "(nat \<Rightarrow> string) \<Rightarrow> string \<Rightarrow> nat \<times> AppState \<times> TableState \<Rightarrow> nat \<times> AppState \<times> TableState" where
  "handleSubmit uuid ts w =
     (case w of (n, s, st) \<Rightarrow>
        if newTransactions st = [] then w
        else (case handleUpdateInventory uuid ts (newTransactions st) (date_t st) (n, s) of
                (n1, s1) \<Rightarrow>
                  (n1, s1,
                   historyEffect (history s1)
                     (st\<lparr> newTransactions := [], drafts := (drafts st)(date_t st := None) \<rparr>))))"

section \<open>Restore from a backup file (handleFileChange)\<close>








section \<open>Quantities used to state the properties\<close>

subsection \<open>Net changes, amounts and the ledger\<close>

text \<open>
  \<open>\<Sigma>(in) - \<Sigma>(out)\<close> over the department entries of one item.
\<close>

definition netOf :: "DeptTrans \<Rightarrow> int" where
  "netOf deptTrans = sum_list (map (inQty \<circ> snd) deptTrans) - sum_list (map (outQty \<circ> snd) deptTrans)"

text \<open>
  The net change a draft matrix holds for an item id (an absent key means no entry).
\<close>

definition itemNet :: "TransactionMatrix \<Rightarrow> string \<Rightarrow> int" where
  "itemNet m iid = (case map_of m iid of None \<Rightarrow> 0 | Some deptTrans \<Rightarrow> netOf deptTrans)"

text \<open>The amount a draft matrix holds for an (item, department, direction) triple.\<close>

definition entryAmount :: "DeptEntry \<Rightarrow> TransType \<Rightarrow> int" where
  "entryAmount e ty = (case ty of In \<Rightarrow> inQty e | Out \<Rightarrow> outQty e)"

definition deptAmount :: "DeptTrans \<Rightarrow> string \<Rightarrow> TransType \<Rightarrow> int" where
  "deptAmount dts d ty = (case map_of dts d of None \<Rightarrow> 0 | Some e \<Rightarrow> entryAmount e ty)"

definition amount :: "TransactionMatrix \<Rightarrow> string \<Rightarrow> string \<Rightarrow> TransType \<Rightarrow> int" where
  "amount m iid d ty = (case map_of m iid of None \<Rightarrow> 0 | Some dts \<Rightarrow> deptAmount dts d ty)"

text \<open>
  The signed effect of the ledger records of one item: \<open>\<Sigma>(in) -
  \<Sigma>(out)\<close>.
\<close>

definition ledgerNet :: "string \<Rightarrow> TransactionRecord list \<Rightarrow> int" where
  "ledgerNet iid h =
     sum_list (map quantity_r (filter (\<lambda>r. itemId r = iid \<and> type_r r = In) h))
       - sum_list (map quantity_r (filter (\<lambda>r. itemId r = iid \<and> type_r r = Out) h))"

definition nonNegMatrix :: "TransactionMatrix \<Rightarrow> bool" where
  "nonNegMatrix m \<longleftrightarrow> list_all (\<lambda>p. list_all (\<lambda>q. 0 \<le> inQty (snd q) \<and> 0 \<le> outQty (snd q)) (snd p)) m"

definition knownItem :: "InventoryItem list \<Rightarrow> string \<Rightarrow> bool" where
  "knownItem its iid \<longleftrightarrow> iid \<in> set (map id_i its)"

subsection \<open>The records of a commit without the accumulator\<close>

text \<open>
  The records that one department entry and the entries of one item add, without the
  accumulator; \<open>deptLoop\<close> is shown below to compute exactly these. \<open>keyOf\<close> projects a ledger record
  to its (item, department, direction, quantity) and the \<open>Triples\<close> functions list the
  projections that a draft matrix gives rise to.
\<close>

definition entryRecs ::
  "(nat \<Rightarrow> string) \<Rightarrow> Department list \<Rightarrow> string \<Rightarrow> string \<Rightarrow> string \<Rightarrow> InventoryItem
     \<Rightarrow> string \<times> DeptEntry \<Rightarrow> nat \<Rightarrow> TransactionRecord list" where
  "entryRecs uuid ds dt ts iid item p n =
     (if inQty (snd p) > 0
      then [mkRecord (uuid n) dt ts iid item (fst p) (deptNameOf ds (fst p)) In (inQty (snd p))]
      else [])
     @ (if outQty (snd p) > 0
        then [mkRecord (uuid (if inQty (snd p) > 0 then n + 1 else n)) dt ts iid item (fst p)
                (deptNameOf ds (fst p)) Out (outQty (snd p))]
        else [])"

fun deptRecs ::
  "(nat \<Rightarrow> string) \<Rightarrow> Department list \<Rightarrow> string \<Rightarrow> string \<Rightarrow> string \<Rightarrow> InventoryItem
     \<Rightarrow> DeptTrans \<Rightarrow> nat \<Rightarrow> TransactionRecord list" where
  "deptRecs uuid ds dt ts iid item [] n = []"
| "deptRecs uuid ds dt ts iid item (p # rest) n =
     entryRecs uuid ds dt ts iid item p n
       @ deptRecs uuid ds dt ts iid item rest (n + length (entryRecs uuid ds dt ts iid item p n))"

type_synonym triple = "string \<times> string \<times> TransType \<times> int"

definition keyOf :: "TransactionRecord \<Rightarrow> triple" where
  "keyOf r = (itemId r, departmentId r, type_r r, quantity_r r)"

definition entryTriples :: "string \<Rightarrow> string \<times> DeptEntry \<Rightarrow> triple list" where
  "entryTriples iid p =
     (if inQty (snd p) > 0 then [(iid, fst p, In, inQty (snd p))] else [])
       @ (if outQty (snd p) > 0 then [(iid, fst p, Out, outQty (snd p))] else [])"

definition deptTriples :: "string \<Rightarrow> DeptTrans \<Rightarrow> triple list" where
  "deptTriples iid dts = concat (map (entryTriples iid) dts)"

definition matrixTriples :: "string list \<Rightarrow> TransactionMatrix \<Rightarrow> triple list" where
  "matrixTriples ids m =
     concat (map (\<lambda>p. if fst p \<in> set ids then deptTriples (fst p) (snd p) else []) m)"

definition hits :: "string \<Rightarrow> string \<Rightarrow> TransType \<Rightarrow> triple \<Rightarrow> bool" where
  "hits i d ty t \<longleftrightarrow> fst t = i \<and> fst (snd t) = d \<and> fst (snd (snd t)) = ty"

definition newHistoryRecords ::
  "(nat \<Rightarrow> string) \<Rightarrow> string \<Rightarrow> TransactionMatrix \<Rightarrow> string \<Rightarrow> nat \<times> AppState
     \<Rightarrow> TransactionRecord list" where
  "newHistoryRecords uuid ts matrix dt ns =
     (case ns of (n, s) \<Rightarrow> fst (snd (itemLoop uuid (departments s) dt ts matrix (items s, [], n))))"

definition tripleNet :: "string \<Rightarrow> triple list \<Rightarrow> int" where
  "tripleNet i tr =
     sum_list (map (\<lambda>t. snd (snd (snd t))) (filter (\<lambda>t. fst t = i \<and> fst (snd (snd t)) = In) tr))
       - sum_list (map (\<lambda>t. snd (snd (snd t))) (filter (\<lambda>t. fst t = i \<and> fst (snd (snd t)) = Out) tr))"

text \<open>Example data: the scenario of one item with quantity 10 and one department.\<close>

definition exItem :: InventoryItem where
  "exItem = \<lparr> id_i = ''i1'', name_i = ''Rice'', image = '''', unit_i = ''kg'', quantity = 10,
      minStock = None, location = Warehouse2, productionDate = None, expiryDate = None,
      lastUpdated = ''2024-04-30T08:00:00.000Z'' \<rparr>"

definition exState :: AppState where
  "exState = \<lparr> items = [exItem], departments = [\<lparr> id_d = ''d1'', name_d = ''Kitchen'' \<rparr>],
      history = [] \<rparr>"

definition exUuid :: "nat \<Rightarrow> string" where
  "exUuid k = replicate (Suc k) CHR ''r''"

definition exMatrix :: TransactionMatrix where
  "exMatrix = [(''i1'', [(''d1'', \<lparr> inQty = 3, outQty = 1 \<rparr>)])]"

definition ghostMatrix :: TransactionMatrix where
  "ghostMatrix = [(''ghost'', [(''d1'', \<lparr> inQty = 3, outQty = 0 \<rparr>)])]"

definition negMatrix :: TransactionMatrix where
  "negMatrix = [(''i1'', [(''d1'', \<lparr> inQty = - 2, outQty = 0 \<rparr>)])]"

text \<open>A draft with an entry of an item that is not in the catalog next to one that is.\<close>

definition mixedMatrix :: TransactionMatrix where
  "mixedMatrix = [(''ghost'', [(''d1'', \<lparr> inQty = 4, outQty = 0 \<rparr>)]),
                  (''i1'', [(''d1'', \<lparr> inQty = 3, outQty = 1 \<rparr>)])]"

subsection \<open>Quantities used to state the reversal\<close>

text \<open>
  The quantity delta that undoes a record: minus the quantity for in, plus for out.
\<close>

definition reversalOf :: "TransactionRecord \<Rightarrow> int" where
  "reversalOf r = (case type_r r of In \<Rightarrow> - quantity_r r | Out \<Rightarrow> quantity_r r)"

text \<open>A ledger record of type in and quantity 5 on the example item.\<close>

definition exRecord :: TransactionRecord where
  "exRecord = mkRecord ''r1'' ''2024-05-01'' ''t1'' ''i1'' exItem ''d1'' ''Kitchen'' In 5"

subsection \<open>Quantities used to state the replay\<close>

text \<open>
  The cell a matrix holds for an (item, department) pair, and the matrix as the nested mapping
  it denotes: two JavaScript objects with the same keys and values in another insertion order
  denote the same mapping.
\<close>

definition cellAt :: "TransactionMatrix \<Rightarrow> string \<Rightarrow> string \<Rightarrow> DeptEntry option" where
  "cellAt m i d = (case map_of m i of None \<Rightarrow> None | Some row \<Rightarrow> map_of row d)"

definition absMatrix :: "TransactionMatrix \<Rightarrow> string \<Rightarrow> (string \<rightharpoonup> DeptEntry) option" where
  "absMatrix m i = map_option map_of (map_of m i)"

text \<open>
  The ledger records of a date for an (item, department) pair, and the sum of their quantities
  in one direction.
\<close>

definition matching :: "string \<Rightarrow> string \<Rightarrow> string \<Rightarrow> TransactionRecord \<Rightarrow> bool" where
  "matching targetDate i d r \<longleftrightarrow> date r = targetDate \<and> itemId r = i \<and> departmentId r = d"

definition sumQty :: "TransType \<Rightarrow> TransactionRecord list \<Rightarrow> int" where
  "sumQty ty rs = sum_list (map quantity_r (filter (\<lambda>r. type_r r = ty) rs))"

text \<open>The effect of one record on a cell, and the cell an absent key stands for.\<close>

definition bump :: "TransactionRecord \<Rightarrow> DeptEntry \<Rightarrow> DeptEntry" where
  "bump h c = (case type_r h of In \<Rightarrow> c\<lparr> inQty := inQty c + quantity_r h \<rparr>
                             | Out \<Rightarrow> c\<lparr> outQty := outQty c + quantity_r h \<rparr>)"

definition orZero :: "DeptEntry option \<Rightarrow> DeptEntry" where
  "orZero c = (case c of None \<Rightarrow> \<lparr> inQty = 0, outQty = 0 \<rparr> | Some e \<Rightarrow> e)"

text \<open>A ledger with two records on one date and a third on another date.\<close>

definition exLedger :: "TransactionRecord list" where
  "exLedger =
     [mkRecord ''r1'' ''2024-05-01'' ''t1'' ''i1'' exItem ''d1'' ''Kitchen'' In 3,
      mkRecord ''r2'' ''2024-05-01'' ''t1'' ''i1'' exItem ''d1'' ''Kitchen'' Out 1,
      mkRecord ''r3'' ''2024-05-02'' ''t2'' ''i1'' exItem ''d1'' ''Kitchen'' In 7]"

subsection \<open>The cells of a draft matrix\<close>

text \<open>
  No cell of the matrix has \<open>in = 0\<close> and \<open>out = 0\<close>; no item of the
  matrix has an empty row.
\<close>

definition noZeroCells :: "TransactionMatrix \<Rightarrow> bool" where
  "noZeroCells m \<longleftrightarrow>
     list_all (\<lambda>p. list_all (\<lambda>q. \<not> (inQty (snd q) = 0 \<and> outQty (snd q) = 0)) (snd p)) m"

definition noEmptyRows :: "TransactionMatrix \<Rightarrow> bool" where
  "noEmptyRows m \<longleftrightarrow> list_all (\<lambda>p. snd p \<noteq> []) m"

text \<open>
  Example component states: the table on the first date with the inline form of the example
  item filled in with \<open>in 3\<close> for the department, and the same with an empty matrix after
  the entry was staged and removed again.
\<close>

definition exTable :: TableState where
  "exTable = \<lparr> selectedItemIds = [''i1''], committedTransactions = [], newTransactions = [],
      drafts = Map.empty,
      activeRows = [''i1'' \<mapsto> \<lparr> deptId = ''d1'', type_f = In, qty = ''3'' \<rparr>],
      date_t = ''2024-05-01'' \<rparr>"

definition exStaged :: TableState where
  "exStaged = saveTransaction ''i1'' exTable"

definition exRemoved :: TableState where
  "exRemoved = removeDraftTransaction ''i1'' ''d1'' In exStaged"

subsection \<open>Quantities used to state the invariant of the draft matrix\<close>

text \<open>
  The invariant of a staged cell, of a row and of the draft matrix: keys held once, amounts
  non-negative, and no cell with \<open>in = 0\<close> and \<open>out = 0\<close>.
\<close>

definition cellOk :: "DeptEntry \<Rightarrow> bool" where
  "cellOk c \<longleftrightarrow> 0 \<le> inQty c \<and> 0 \<le> outQty c \<and> \<not> (inQty c = 0 \<and> outQty c = 0)"

definition rowOk :: "DeptTrans \<Rightarrow> bool" where
  "rowOk row \<longleftrightarrow> distinct (map fst row) \<and> list_all (\<lambda>q. cellOk (snd q)) row"

text \<open>
  The row and the cell an absent key stands for, and the addition of a staged quantity.
\<close>

definition rowOf :: "TransactionMatrix \<Rightarrow> string \<Rightarrow> DeptTrans" where
  "rowOf m i = (case map_of m i of Some t \<Rightarrow> t | None \<Rightarrow> [])"

definition cellOf :: "DeptTrans \<Rightarrow> string \<Rightarrow> DeptEntry" where
  "cellOf row d = (case map_of row d of Some c \<Rightarrow> c | None \<Rightarrow> \<lparr> inQty = 0, outQty = 0 \<rparr>)"

definition addQty :: "TransType \<Rightarrow> int \<Rightarrow> DeptEntry \<Rightarrow> DeptEntry" where
  "addQty ty q c = (case ty of In \<Rightarrow> c\<lparr> inQty := inQty c + q \<rparr> | Out \<Rightarrow> c\<lparr> outQty := outQty c + q \<rparr>)"

definition draftOk :: "TransactionMatrix \<Rightarrow> bool" where
  "draftOk m \<longleftrightarrow> distinct (map fst m) \<and> list_all (\<lambda>p. rowOk (snd p)) m"

subsection \<open>Quantities used to state the restore\<close>







section \<open>Proofs\<close>

lemma netOf_Cons: "netOf (p # dts) = (inQty (snd p) - outQty (snd p)) + netOf dts"
  by (simp add: netOf_def)

lemma netOf_Nil: "netOf [] = 0"
  by (simp add: netOf_def)

lemma deptLoop_eq:
  "deptLoop uuid ds dt ts iid item dts (net, recs, n) =
     (net + netOf dts, recs @ deptRecs uuid ds dt ts iid item dts n,
      n + length (deptRecs uuid ds dt ts iid item dts n))"
proof (induction dts arbitrary: net recs n)
  case Nil
  show ?case by (simp add: netOf_Nil)
next
  case (Cons p dts)
  obtain d e where p: "p = (d, e)" by (cases p)
  show ?case
    unfolding p
    by (simp add: Let_def Cons.IH netOf_Cons entryRecs_def)
qed

lemma findIndex_None_iff: "findIndex P xs = None \<longleftrightarrow> (\<forall>x\<in>set xs. \<not> P x)"
  by (induction xs) auto

lemma findIndex_SomeD: "findIndex P xs = Some k \<Longrightarrow> k < length xs \<and> P (xs ! k)"
  by (induction xs arbitrary: k) (auto split: if_splits)

lemma findIndex_map: "findIndex P (map f xs) = findIndex (P \<circ> f) xs"
  by (induction xs) auto

lemma findIndex_id_cong:
  assumes "map id_i xs = map id_i ys"
  shows "findIndex (\<lambda>i. id_i i = iid) xs = findIndex (\<lambda>i. id_i i = iid) ys"
proof -
  have "findIndex (\<lambda>j. j = iid) (map id_i xs) = findIndex (\<lambda>j. j = iid) (map id_i ys)"
    using assms by simp
  then show ?thesis by (simp add: findIndex_map comp_def)
qed

lemma map_id_update:
  "map id_i (its[k := (its ! k)\<lparr>quantity := q, lastUpdated := t\<rparr>]) = map id_i its"
proof -
  have "map id_i (its[k := (its ! k)\<lparr>quantity := q, lastUpdated := t\<rparr>])
          = map id_i (its[k := its ! k])"
    unfolding map_update by simp
  then show ?thesis by simp
qed

lemma itemLoop_ids:
  "map id_i (fst (itemLoop uuid ds dt ts m (its, recs, n))) = map id_i its"
proof (induction m arbitrary: its recs n)
  case Nil
  show ?case by simp
next
  case (Cons p m)
  obtain iid dts where p: "p = (iid, dts)" by (cases p)
  show ?case
    unfolding p
    by (simp add: deptLoop_eq Let_def Cons.IH map_id_update split: option.splits)
qed

lemma itemLoop_quantity:
  "k < length its \<Longrightarrow>
   quantity (fst (itemLoop uuid ds dt ts m (its, recs, n)) ! k) =
     quantity (its ! k)
       + sum_list (map (\<lambda>p. if findIndex (\<lambda>i. id_i i = fst p) its = Some k then netOf (snd p) else 0) m)"
proof (induction m arbitrary: its recs n)
  case Nil
  show ?case by simp
next
  case (Cons p m)
  obtain iid dts where p: "p = (iid, dts)" by (cases p)
  show ?case
  proof (cases "findIndex (\<lambda>i. id_i i = iid) its")
    case None
    then show ?thesis
      unfolding p using Cons.prems by (simp add: Cons.IH)
  next
    case (Some j)
    let ?its2 = "its[j := (its ! j)\<lparr>quantity := quantity (its ! j) + netOf dts, lastUpdated := ts\<rparr>]"
    have len: "k < length ?its2" using Cons.prems by simp
    have ids: "map id_i ?its2 = map id_i its" by (rule map_id_update)
    have fi: "\<And>x. findIndex (\<lambda>i. id_i i = x) ?its2 = findIndex (\<lambda>i. id_i i = x) its"
      by (rule findIndex_id_cong [OF ids])
    have q2: "quantity (?its2 ! k) = quantity (its ! k) + (if j = k then netOf dts else 0)"
      using Cons.prems by (simp add: nth_list_update)
    show ?thesis
      unfolding p using Some Cons.prems
      by (simp add: deptLoop_eq Let_def Cons.IH [OF len] fi q2)
  qed
qed

lemma entryRecs_key: "map keyOf (entryRecs uuid ds dt ts iid item p n) = entryTriples iid p"
  by (simp add: entryRecs_def entryTriples_def keyOf_def mkRecord_def)

lemma deptRecs_key: "map keyOf (deptRecs uuid ds dt ts iid item dts n) = deptTriples iid dts"
  by (induction dts arbitrary: n) (simp_all add: deptTriples_def entryRecs_key)

lemma entryRecs_date:
  "r \<in> set (entryRecs uuid ds dt ts iid item p n) \<Longrightarrow> date r = dt \<and> timestamp r = ts"
  by (auto simp: entryRecs_def mkRecord_def split: if_splits)

lemma deptRecs_date:
  "r \<in> set (deptRecs uuid ds dt ts iid item dts n) \<Longrightarrow> date r = dt \<and> timestamp r = ts"
  by (induction dts arbitrary: n) (auto dest: entryRecs_date)

lemma findIndex_Some_mem:
  "findIndex (\<lambda>i. id_i i = iid) its = Some j \<Longrightarrow> iid \<in> set (map id_i its)"
  using findIndex_SomeD [of "\<lambda>i. id_i i = iid" its j] nth_mem [of j its] by force

lemma findIndex_None_mem:
  "findIndex (\<lambda>i. id_i i = iid) its = None \<Longrightarrow> iid \<notin> set (map id_i its)"
  by (auto simp: findIndex_None_iff)

lemma itemLoop_key:
  "map keyOf (fst (snd (itemLoop uuid ds dt ts m (its, recs, n)))) =
     map keyOf recs @ matrixTriples (map id_i its) m"
proof (induction m arbitrary: its recs n)
  case Nil
  show ?case by (simp add: matrixTriples_def)
next
  case (Cons p m)
  obtain iid dts where p: "p = (iid, dts)" by (cases p)
  have step: "matrixTriples ids (p # m) =
      (if iid \<in> set ids then deptTriples iid dts else []) @ matrixTriples ids m" for ids
    by (simp add: matrixTriples_def p)
  show ?case
  proof (cases "findIndex (\<lambda>i. id_i i = iid) its")
    case None
    then show ?thesis
      using findIndex_None_mem [OF None] unfolding step unfolding p
      by (simp add: Cons.IH)
  next
    case (Some j)
    then show ?thesis
      using findIndex_Some_mem [OF Some] unfolding step unfolding p
      by (simp add: deptLoop_eq Let_def Cons.IH map_id_update deptRecs_key)
  qed
qed

lemma itemLoop_date:
  "r \<in> set (fst (snd (itemLoop uuid ds dt ts m (its, recs, n)))) \<Longrightarrow>
     r \<in> set recs \<or> (date r = dt \<and> timestamp r = ts)"
proof (induction m arbitrary: its recs n)
  case Nil
  then show ?case by simp
next
  case (Cons p m)
  obtain iid dts where p: "p = (iid, dts)" by (cases p)
  show ?case
  proof (cases "findIndex (\<lambda>i. id_i i = iid) its")
    case None
    then show ?thesis using Cons.prems Cons.IH unfolding p by simp
  next
    case (Some j)
    from Cons.prems Some
    have "r \<in> set (recs @ deptRecs uuid ds dt ts iid (its ! j) dts n)
            \<or> (date r = dt \<and> timestamp r = ts)"
      unfolding p by (auto simp: deptLoop_eq Let_def dest!: Cons.IH)
    then show ?thesis by (auto dest: deptRecs_date)
  qed
qed

lemma entryTriples_count:
  "length (filter (hits i d ty) (entryTriples iid p)) =
     (if iid = i \<and> fst p = d \<and> 0 < entryAmount (snd p) ty then 1 else 0)"
  by (cases ty) (auto simp: entryTriples_def hits_def entryAmount_def)

lemma deptAmount_notin: "d \<notin> fst ` set dts \<Longrightarrow> deptAmount dts d ty = 0"
  by (simp add: deptAmount_def map_of_eq_None_iff [THEN iffD2])

lemma deptTriples_Cons: "deptTriples iid (p # dts) = entryTriples iid p @ deptTriples iid dts"
  by (simp add: deptTriples_def)

lemma deptTriples_count:
  "distinct (map fst dts) \<Longrightarrow>
   length (filter (hits i d ty) (deptTriples iid dts)) =
     (if iid = i \<and> 0 < deptAmount dts d ty then 1 else 0)"
proof (induction dts)
  case Nil
  show ?case by (simp add: deptTriples_def deptAmount_def)
next
  case (Cons p dts)
  have dist: "distinct (map fst dts)" and notin: "fst p \<notin> fst ` set dts"
    using Cons.prems by auto
  show ?case
  proof (cases "fst p = d")
    case True
    then have "deptAmount dts d ty = 0" using notin by (simp add: deptAmount_notin)
    moreover have "deptAmount (p # dts) d ty = entryAmount (snd p) ty"
      using True by (cases p) (simp add: deptAmount_def)
    ultimately show ?thesis
      using True by (simp add: deptTriples_Cons entryTriples_count Cons.IH [OF dist])
  next
    case False
    then have "deptAmount (p # dts) d ty = deptAmount dts d ty"
      by (cases p) (simp add: deptAmount_def)
    then show ?thesis
      using False by (simp add: deptTriples_Cons entryTriples_count Cons.IH [OF dist])
  qed
qed

lemma deptTriples_item: "t \<in> set (deptTriples iid dts) \<Longrightarrow> fst t = iid"
  by (auto simp: deptTriples_def entryTriples_def split: if_splits)

lemma amount_notin: "i \<notin> fst ` set m \<Longrightarrow> amount m i d ty = 0"
  by (simp add: amount_def map_of_eq_None_iff [THEN iffD2])

lemma matrixTriples_Cons:
  "matrixTriples ids (p # m) =
     (if fst p \<in> set ids then deptTriples (fst p) (snd p) else []) @ matrixTriples ids m"
  by (simp add: matrixTriples_def)

lemma matrixTriples_count:
  "wfMatrix m \<Longrightarrow>
   length (filter (hits i d ty) (matrixTriples ids m)) =
     (if i \<in> set ids \<and> 0 < amount m i d ty then 1 else 0)"
proof (induction m)
  case Nil
  show ?case by (simp add: matrixTriples_def amount_def)
next
  case (Cons p m)
  have wf: "wfMatrix m" and notin: "fst p \<notin> fst ` set m" and dist: "distinct (map fst (snd p))"
    using Cons.prems by (auto simp: wfMatrix_def)
  have head: "length (filter (hits i d ty)
                 (if fst p \<in> set ids then deptTriples (fst p) (snd p) else [])) =
               (if fst p \<in> set ids \<and> fst p = i \<and> 0 < deptAmount (snd p) d ty then 1 else 0)"
    using deptTriples_count [OF dist, of i d ty "fst p"] by (cases "fst p \<in> set ids") simp_all
  have split: "length (filter (hits i d ty) (matrixTriples ids (p # m))) =
      (if fst p \<in> set ids \<and> fst p = i \<and> 0 < deptAmount (snd p) d ty then 1 else 0)
        + (if i \<in> set ids \<and> 0 < amount m i d ty then 1 else 0)"
    unfolding matrixTriples_Cons filter_append length_append head Cons.IH [OF wf] ..
  show ?case
  proof (cases "fst p = i")
    case True
    then have "amount m i d ty = 0" using notin by (simp add: amount_notin)
    moreover have "amount (p # m) i d ty = deptAmount (snd p) d ty"
      using True by (cases p) (simp add: amount_def)
    ultimately show ?thesis
      unfolding split using True by simp
  next
    case False
    then have "amount (p # m) i d ty = amount m i d ty"
      by (cases p) (simp add: amount_def)
    then show ?thesis
      unfolding split using False by simp
  qed
qed

lemma entryTriples_amount:
  "t \<in> set (entryTriples iid p) \<Longrightarrow>
     fst t = iid \<and> fst (snd t) = fst p \<and> snd (snd (snd t)) = entryAmount (snd p) (fst (snd (snd t)))
       \<and> 0 < snd (snd (snd t))"
  by (auto simp: entryTriples_def entryAmount_def split: if_splits)

lemma deptTriples_amount:
  "distinct (map fst dts) \<Longrightarrow> t \<in> set (deptTriples iid dts) \<Longrightarrow>
     fst t = iid \<and> snd (snd (snd t)) = deptAmount dts (fst (snd t)) (fst (snd (snd t)))
       \<and> 0 < snd (snd (snd t))"
proof (induction dts)
  case Nil
  then show ?case by (simp add: deptTriples_def)
next
  case (Cons p dts)
  have dist: "distinct (map fst dts)" and notin: "fst p \<notin> fst ` set dts"
    using Cons.prems by auto
  from Cons.prems(2) consider "t \<in> set (entryTriples iid p)" | "t \<in> set (deptTriples iid dts)"
    by (auto simp: deptTriples_Cons)
  then show ?case
  proof cases
    case 1
    from entryTriples_amount [OF 1] show ?thesis
      by (cases p) (simp add: deptAmount_def)
  next
    case 2
    from Cons.IH [OF dist 2] have ih: "fst t = iid"
      "snd (snd (snd t)) = deptAmount dts (fst (snd t)) (fst (snd (snd t)))" "0 < snd (snd (snd t))"
      by simp_all
    have "fst (snd t) \<noteq> fst p"
    proof
      assume "fst (snd t) = fst p"
      then have "deptAmount dts (fst (snd t)) (fst (snd (snd t))) = 0"
        using notin by (simp add: deptAmount_notin)
      with ih show False by simp
    qed
    then have "deptAmount (p # dts) (fst (snd t)) (fst (snd (snd t)))
                 = deptAmount dts (fst (snd t)) (fst (snd (snd t)))"
      by (cases p) (simp add: deptAmount_def)
    with ih show ?thesis by simp
  qed
qed

lemma matrixTriples_amount:
  "wfMatrix m \<Longrightarrow> t \<in> set (matrixTriples ids m) \<Longrightarrow>
     fst t \<in> set ids \<and> snd (snd (snd t)) = amount m (fst t) (fst (snd t)) (fst (snd (snd t)))
       \<and> 0 < snd (snd (snd t))"
proof (induction m)
  case Nil
  then show ?case by (simp add: matrixTriples_def)
next
  case (Cons p m)
  have wf: "wfMatrix m" and notin: "fst p \<notin> fst ` set m" and dist: "distinct (map fst (snd p))"
    using Cons.prems(1) by (auto simp: wfMatrix_def)
  from Cons.prems(2) consider
      "fst p \<in> set ids" "t \<in> set (deptTriples (fst p) (snd p))"
    | "t \<in> set (matrixTriples ids m)"
    by (auto simp: matrixTriples_Cons split: if_splits)
  then show ?case
  proof cases
    case 1
    from deptTriples_amount [OF dist 1(2)] 1(1) show ?thesis
      by (cases p) (simp add: amount_def)
  next
    case 2
    from Cons.IH [OF wf 2] have ih: "fst t \<in> set ids"
      "snd (snd (snd t)) = amount m (fst t) (fst (snd t)) (fst (snd (snd t)))" "0 < snd (snd (snd t))"
      by simp_all
    have "fst t \<noteq> fst p"
    proof
      assume "fst t = fst p"
      then have "amount m (fst t) (fst (snd t)) (fst (snd (snd t))) = 0"
        using notin by (simp add: amount_notin)
      with ih show False by simp
    qed
    then have "amount (p # m) (fst t) (fst (snd t)) (fst (snd (snd t)))
                 = amount m (fst t) (fst (snd t)) (fst (snd (snd t)))"
      by (cases p) (simp add: amount_def)
    with ih show ?thesis by simp
  qed
qed

lemma handle_history:
  "history (snd (handleUpdateInventory uuid ts m dt (n, s))) =
     newHistoryRecords uuid ts m dt (n, s) @ history s"
  by (simp add: handleUpdateInventory_def newHistoryRecords_def split: prod.splits)

lemma handle_items:
  "items (snd (handleUpdateInventory uuid ts m dt (n, s))) =
     fst (itemLoop uuid (departments s) dt ts m (items s, [], n))"
  by (simp add: handleUpdateInventory_def split: prod.splits)

lemma handle_departments:
  "departments (snd (handleUpdateInventory uuid ts m dt (n, s))) = departments s"
  by (simp add: handleUpdateInventory_def split: prod.splits)

lemma handle_ids:
  "map id_i (items (snd (handleUpdateInventory uuid ts m dt (n, s)))) = map id_i (items s)"
  by (simp add: handle_items itemLoop_ids)

lemma newHistoryRecords_key:
  "map keyOf (newHistoryRecords uuid ts m dt (n, s)) = matrixTriples (map id_i (items s)) m"
  by (simp add: newHistoryRecords_def itemLoop_key)

lemma newHistoryRecords_date:
  "r \<in> set (newHistoryRecords uuid ts m dt (n, s)) \<Longrightarrow> date r = dt \<and> timestamp r = ts"
  using itemLoop_date [of r uuid "departments s" dt ts m "items s" "[]" n]
  by (simp add: newHistoryRecords_def)

lemma sum_key_itemNet:
  "distinct (map fst m) \<Longrightarrow>
     sum_list (map (\<lambda>p. if fst p = i then netOf (snd p) else 0) m) = itemNet m i"
proof (induction m)
  case Nil
  show ?case by (simp add: itemNet_def)
next
  case (Cons p m)
  have dist: "distinct (map fst m)" and notin: "fst p \<notin> fst ` set m"
    using Cons.prems by auto
  show ?case
  proof (cases "fst p = i")
    case True
    then have "map_of m i = None" using notin by (simp add: map_of_eq_None_iff)
    then have "itemNet m i = 0" by (simp add: itemNet_def)
    moreover have "itemNet (p # m) i = netOf (snd p)"
      using True by (cases p) (simp add: itemNet_def)
    ultimately show ?thesis using True Cons.IH [OF dist] by simp
  next
    case False
    then have "itemNet (p # m) i = itemNet m i" by (cases p) (simp add: itemNet_def)
    then show ?thesis using False Cons.IH [OF dist] by simp
  qed
qed

lemma findIndex_key_iff:
  assumes "findIndex (\<lambda>x. id_i x = i) its = Some k"
  shows "findIndex (\<lambda>x. id_i x = j) its = Some k \<longleftrightarrow> j = i"
proof
  assume "findIndex (\<lambda>x. id_i x = j) its = Some k"
  then have "id_i (its ! k) = j" by (auto dest: findIndex_SomeD)
  moreover have "id_i (its ! k) = i" using assms by (auto dest: findIndex_SomeD)
  ultimately show "j = i" by simp
next
  assume "j = i"
  then show "findIndex (\<lambda>x. id_i x = j) its = Some k" using assms by simp
qed

lemma handle_quantity:
  assumes "findIndex (\<lambda>x. id_i x = i) (items s) = Some k" and "distinct (map fst m)"
  shows "quantity (items (snd (handleUpdateInventory uuid ts m dt (n, s))) ! k) =
           quantity (items s ! k) + itemNet m i"
proof -
  have k: "k < length (items s)" using assms(1) by (auto dest: findIndex_SomeD)
  have "quantity (items (snd (handleUpdateInventory uuid ts m dt (n, s))) ! k) =
          quantity (items s ! k)
            + sum_list (map (\<lambda>p. if findIndex (\<lambda>x. id_i x = fst p) (items s) = Some k
                                  then netOf (snd p) else 0) m)"
    unfolding handle_items by (rule itemLoop_quantity [OF k])
  also have "(\<lambda>p. if findIndex (\<lambda>x. id_i x = fst p) (items s) = Some k then netOf (snd p) else 0)
               = (\<lambda>p. if fst p = i then netOf (snd p) else 0)"
    by (simp add: findIndex_key_iff [OF assms(1)])
  finally show ?thesis by (simp add: sum_key_itemNet [OF assms(2)])
qed

lemma ledgerNet_key: "ledgerNet i h = tripleNet i (map keyOf h)"
  by (simp add: ledgerNet_def tripleNet_def filter_map comp_def keyOf_def)

lemma tripleNet_append: "tripleNet i (a @ b) = tripleNet i a + tripleNet i b"
  by (simp add: tripleNet_def)

lemma tripleNet_Nil: "tripleNet i [] = 0"
  by (simp add: tripleNet_def)

lemma ledgerNet_append: "ledgerNet i (a @ b) = ledgerNet i a + ledgerNet i b"
  by (simp add: ledgerNet_def)

lemma tripleNet_entry:
  "0 \<le> inQty (snd p) \<Longrightarrow> 0 \<le> outQty (snd p) \<Longrightarrow>
     tripleNet i (entryTriples iid p) = (if iid = i then inQty (snd p) - outQty (snd p) else 0)"
  by (simp add: tripleNet_def entryTriples_def)

lemma tripleNet_dept:
  "list_all (\<lambda>q. 0 \<le> inQty (snd q) \<and> 0 \<le> outQty (snd q)) dts \<Longrightarrow>
     tripleNet i (deptTriples iid dts) = (if iid = i then netOf dts else 0)"
  by (induction dts)
     (simp_all add: deptTriples_Cons tripleNet_append tripleNet_entry netOf_Cons netOf_Nil,
      simp add: deptTriples_def tripleNet_Nil)

lemma tripleNet_matrix:
  "nonNegMatrix m \<Longrightarrow>
     tripleNet i (matrixTriples ids m) =
       sum_list (map (\<lambda>p. if fst p = i \<and> i \<in> set ids then netOf (snd p) else 0) m)"
proof (induction m)
  case Nil
  show ?case by (simp add: matrixTriples_def tripleNet_Nil)
next
  case (Cons p m)
  have nn: "nonNegMatrix m"
    and np: "list_all (\<lambda>q. 0 \<le> inQty (snd q) \<and> 0 \<le> outQty (snd q)) (snd p)"
    using Cons.prems by (simp_all add: nonNegMatrix_def)
  show ?case
    by (auto simp: matrixTriples_Cons tripleNet_append tripleNet_dept [OF np] Cons.IH [OF nn]
          tripleNet_Nil)
qed

lemma handle_ledger:
  assumes "knownItem (items s) i" and "distinct (map fst m)" and "nonNegMatrix m"
  shows "ledgerNet i (history (snd (handleUpdateInventory uuid ts m dt (n, s)))) =
           ledgerNet i (history s) + itemNet m i"
proof -
  have mem: "i \<in> set (map id_i (items s))" using assms(1) by (simp add: knownItem_def)
  have "ledgerNet i (newHistoryRecords uuid ts m dt (n, s)) =
          sum_list (map (\<lambda>p. if fst p = i \<and> i \<in> set (map id_i (items s))
                                then netOf (snd p) else 0) m)"
    unfolding ledgerNet_key newHistoryRecords_key by (rule tripleNet_matrix [OF assms(3)])
  also have "\<dots> = sum_list (map (\<lambda>p. if fst p = i then netOf (snd p) else 0) m)"
    using mem by simp
  also have "\<dots> = itemNet m i" by (rule sum_key_itemNet [OF assms(2)])
  finally show ?thesis by (simp add: handle_history ledgerNet_append)
qed

lemma itemLoop_skip_unknown:
  "map id_i its = ids \<Longrightarrow>
   itemLoop uuid ds dt ts m (its, recs, n) =
     itemLoop uuid ds dt ts (filter (\<lambda>p. fst p \<in> set ids) m) (its, recs, n)"
proof (induction m arbitrary: its recs n)
  case Nil
  show ?case by simp
next
  case (Cons p m)
  obtain iid dts where p: "p = (iid, dts)" by (cases p)
  show ?case
  proof (cases "findIndex (\<lambda>i. id_i i = iid) its")
    case None
    have "iid \<notin> set ids" using findIndex_None_mem [OF None] Cons.prems by simp
    then show ?thesis unfolding p using None Cons.IH [OF Cons.prems] by simp
  next
    case (Some j)
    have "iid \<in> set ids" using findIndex_Some_mem [OF Some] Cons.prems by simp
    moreover have "map id_i (its[j := (its ! j)\<lparr>quantity := q, lastUpdated := ts\<rparr>]) = ids" for q
      using Cons.prems by (simp only: map_id_update)
    ultimately show ?thesis
      unfolding p using Some by (simp add: deptLoop_eq Let_def Cons.IH)
  qed
qed

subsection \<open>Conservation of quantity\<close>

text \<open>
  Claim C1. Let item \<open>i\<close> be found at index \<open>k\<close> of the catalog and let every draft
  matrix of a sequence of commits hold each key once. Every commit adds to the item's
  quantity the net change \<open>\<Sigma>(in) - \<Sigma>(out)\<close> over the item's department entries, once for
  the item and not once per record, so after the sequence the quantity is the initial
  quantity plus the sum of the net changes. When the drafts' amounts are non-negative, as
  the data model has them, the same sum is what the sequence adds to \<open>\<Sigma>(in) - \<Sigma>(out)\<close>
  over the ledger records of the item: the final quantity is the initial one plus the
  committed in amounts minus the committed out amounts.
\<close>

theorem commit_conservation:
  assumes "findIndex (\<lambda>x. id_i x = i) (items s) = Some k"
      and "list_all (\<lambda>c. wfMatrix (fst (snd c))) cs"
  shows "quantity (items (snd (commitAll uuid cs (n, s))) ! k) =
           quantity (items s ! k) + sum_list (map (\<lambda>c. itemNet (fst (snd c)) i) cs)
         \<and> (list_all (\<lambda>c. nonNegMatrix (fst (snd c))) cs \<longrightarrow>
              ledgerNet i (history (snd (commitAll uuid cs (n, s)))) =
                ledgerNet i (history s) + sum_list (map (\<lambda>c. itemNet (fst (snd c)) i) cs))"
  using assms
proof (induction cs arbitrary: n s)
  case Nil
  show ?case by simp
next
  case (Cons c cs)
  obtain ts m dt where c: "c = (ts, m, dt)" by (cases c)
  obtain n1 s1 where h: "handleUpdateInventory uuid ts m dt (n, s) = (n1, s1)"
    by (cases "handleUpdateInventory uuid ts m dt (n, s)")
  have wf: "wfMatrix m" and wfs: "list_all (\<lambda>c. wfMatrix (fst (snd c))) cs"
    using Cons.prems(2) by (simp_all add: c)
  have dist: "distinct (map fst m)" using wf by (simp add: wfMatrix_def)
  have ids: "map id_i (items s1) = map id_i (items s)"
    using handle_ids [of uuid ts m dt n s] by (simp add: h)
  have fi: "findIndex (\<lambda>x. id_i x = i) (items s1) = Some k"
    using Cons.prems(1) findIndex_id_cong [OF ids] by simp
  have q1: "quantity (items s1 ! k) = quantity (items s ! k) + itemNet m i"
    using handle_quantity [OF Cons.prems(1) dist, of uuid ts dt n] by (simp add: h)
  have known: "knownItem (items s) i"
    using findIndex_Some_mem [OF Cons.prems(1)] by (simp add: knownItem_def)
  have l1: "nonNegMatrix m \<Longrightarrow> ledgerNet i (history s1) = ledgerNet i (history s) + itemNet m i"
    using handle_ledger [OF known dist, of uuid ts dt n] by (simp add: h)
  from Cons.IH [OF fi wfs, of n1] q1 l1 show ?case
    by (simp add: c h)
qed

text \<open>
  Two commits of \<open>in = 3\<close>, \<open>out = 1\<close> on the item with quantity 10: the quantity becomes 14
  and the ledger holds a net of 4 for the item.
\<close>

theorem commit_conservation_witness:
  "quantity (items (snd (commitAll exUuid
       [(''t1'', exMatrix, ''2024-05-01''), (''t2'', exMatrix, ''2024-05-02'')] (0, exState))) ! 0) = 14
   \<and> ledgerNet ''i1'' (history (snd (commitAll exUuid
       [(''t1'', exMatrix, ''2024-05-01''), (''t2'', exMatrix, ''2024-05-02'')] (0, exState)))) = 4"
  using commit_conservation [of "''i1''" exState 0
      "[(''t1'', exMatrix, ''2024-05-01''), (''t2'', exMatrix, ''2024-05-02'')]" exUuid 0]
  by (simp add: exState_def exItem_def exMatrix_def wfMatrix_def nonNegMatrix_def itemNet_def
        netOf_def ledgerNet_def)

subsection \<open>Entries of unknown items\<close>

lemma matrixTriples_item: "t \<in> set (matrixTriples ids m) \<Longrightarrow> fst t \<in> set ids"
proof (induction m)
  case Nil
  then show ?case by (simp add: matrixTriples_def)
next
  case (Cons p m)
  then show ?case by (auto simp: matrixTriples_Cons dest: deptTriples_item split: if_splits)
qed

lemma handle_unknown_only:
  assumes "list_all (\<lambda>p. \<not> knownItem (items s) (fst p)) m"
  shows "handleUpdateInventory uuid ts m dt (n, s) = (n, s)"
proof -
  have "filter (\<lambda>p. fst p \<in> set (map id_i (items s))) m = []"
    using assms by (auto simp: list_all_iff knownItem_def filter_empty_conv)
  then have "itemLoop uuid (departments s) dt ts m (items s, [], n) = (items s, [], n)"
    using itemLoop_skip_unknown [OF refl, of uuid "departments s" dt ts m "items s" "[]" n]
    by simp
  then show ?thesis by (simp add: handleUpdateInventory_def)
qed

text \<open>
  Claim C10. A commit silently skips the entries of the draft matrix whose item id matches
  no item of the catalog, and processes the entries of the items of the catalog in full.
  The commit gives the same state as the commit of the matrix without the unknown entries
  (the same quantities, ledger and number of UUIDs drawn). The new records, put in front of
  the ledger, are in order exactly those of the positive amounts of the entries of known
  items, so no new record carries an unknown item id. The item ids of the catalog are
  unchanged, and the quantity at every index of the catalog grows by the net changes
  \<open>\<Sigma>(in) - \<Sigma>(out)\<close> of the entries whose id is found at that index, to which an unknown
  entry adds nothing. For a matrix that holds each key once, an item found in the catalog
  gets its full net change and one record per positive amount whatever unknown entries the
  matrix holds beside it. A matrix of unknown entries only leaves the state as it is; there
  is no error result.
\<close>

theorem commit_skips_unknown_items:
  "handleUpdateInventory uuid ts m dt (n, s) =
     handleUpdateInventory uuid ts (filter (\<lambda>p. knownItem (items s) (fst p)) m) dt (n, s)
   \<and> history (snd (handleUpdateInventory uuid ts m dt (n, s))) =
       newHistoryRecords uuid ts m dt (n, s) @ history s
   \<and> map keyOf (newHistoryRecords uuid ts m dt (n, s)) = matrixTriples (map id_i (items s)) m
   \<and> (\<forall>r \<in> set (newHistoryRecords uuid ts m dt (n, s)). knownItem (items s) (itemId r))
   \<and> map id_i (items (snd (handleUpdateInventory uuid ts m dt (n, s)))) = map id_i (items s)
   \<and> (k < length (items s) \<longrightarrow>
        quantity (items (snd (handleUpdateInventory uuid ts m dt (n, s))) ! k) =
          quantity (items s ! k)
            + sum_list (map (\<lambda>p. if findIndex (\<lambda>x. id_i x = fst p) (items s) = Some k
                                  then netOf (snd p) else 0) m))
   \<and> (wfMatrix m \<and> findIndex (\<lambda>x. id_i x = i) (items s) = Some k \<longrightarrow>
        quantity (items (snd (handleUpdateInventory uuid ts m dt (n, s))) ! k) =
          quantity (items s ! k) + itemNet m i
        \<and> length (filter (\<lambda>r. itemId r = i \<and> departmentId r = d \<and> type_r r = ty)
                    (newHistoryRecords uuid ts m dt (n, s))) =
            (if 0 < amount m i d ty then 1 else 0))
   \<and> (list_all (\<lambda>p. \<not> knownItem (items s) (fst p)) m \<longrightarrow>
        handleUpdateInventory uuid ts m dt (n, s) = (n, s))"
proof -
  let ?new = "newHistoryRecords uuid ts m dt (n, s)"
  have c1: "handleUpdateInventory uuid ts m dt (n, s) =
     handleUpdateInventory uuid ts (filter (\<lambda>p. knownItem (items s) (fst p)) m) dt (n, s)"
    unfolding handleUpdateInventory_def knownItem_def
    using itemLoop_skip_unknown [OF refl, of uuid "departments s" dt ts m "items s" "[]" n]
    by simp
  have key: "map keyOf ?new = matrixTriples (map id_i (items s)) m"
    by (rule newHistoryRecords_key)
  have c2: "history (snd (handleUpdateInventory uuid ts m dt (n, s))) = ?new @ history s"
    by (rule handle_history)
  have c5: "map id_i (items (snd (handleUpdateInventory uuid ts m dt (n, s)))) = map id_i (items s)"
    by (rule handle_ids)
  have c8: "list_all (\<lambda>p. \<not> knownItem (items s) (fst p)) m \<longrightarrow>
        handleUpdateInventory uuid ts m dt (n, s) = (n, s)"
    using handle_unknown_only [of s m uuid ts dt n] by blast
  have c4: "knownItem (items s) (itemId r)" if r: "r \<in> set ?new" for r
  proof -
    have "keyOf r \<in> set (matrixTriples (map id_i (items s)) m)"
      using r key by (metis image_eqI set_map)
    from matrixTriples_item [OF this] show ?thesis by (simp add: keyOf_def knownItem_def)
  qed
  have c6: "quantity (items (snd (handleUpdateInventory uuid ts m dt (n, s))) ! k) =
          quantity (items s ! k)
            + sum_list (map (\<lambda>p. if findIndex (\<lambda>x. id_i x = fst p) (items s) = Some k
                                  then netOf (snd p) else 0) m)"
    if "k < length (items s)"
    unfolding handle_items by (rule itemLoop_quantity [OF that])
  have c7: "quantity (items (snd (handleUpdateInventory uuid ts m dt (n, s))) ! k) =
          quantity (items s ! k) + itemNet m i
        \<and> length (filter (\<lambda>r. itemId r = i \<and> departmentId r = d \<and> type_r r = ty) ?new) =
            (if 0 < amount m i d ty then 1 else 0)"
    if wf: "wfMatrix m" and fi: "findIndex (\<lambda>x. id_i x = i) (items s) = Some k"
  proof -
    have dist: "distinct (map fst m)" using wf by (simp add: wfMatrix_def)
    have mem: "i \<in> set (map id_i (items s))" by (rule findIndex_Some_mem [OF fi])
    have "length (filter (\<lambda>r. itemId r = i \<and> departmentId r = d \<and> type_r r = ty) ?new) =
            length (filter (hits i d ty) (map keyOf ?new))"
      by (simp add: filter_map comp_def hits_def keyOf_def)
    also have "\<dots> = (if i \<in> set (map id_i (items s)) \<and> 0 < amount m i d ty then 1 else 0)"
      unfolding key by (rule matrixTriples_count [OF wf])
    finally have "length (filter (\<lambda>r. itemId r = i \<and> departmentId r = d \<and> type_r r = ty) ?new) =
            (if 0 < amount m i d ty then 1 else 0)"
      using mem by simp
    then show ?thesis using handle_quantity [OF fi dist, of uuid ts dt n] by simp
  qed
  from c1 c2 key c4 c5 c6 c7 c8 show ?thesis by blast
qed

text \<open>
  A draft with \<open>in = 4\<close> for an unknown item and \<open>in = 3\<close>, \<open>out = 1\<close> for the example
  item: the item's quantity goes from 10 to 12, the two new records are the item's, and none
  is created for the unknown item; a draft with the unknown entry alone changes nothing.
\<close>

theorem commit_skips_unknown_items_witness:
  "knownItem (items exState) ''i1'' \<and> \<not> knownItem (items exState) ''ghost''
   \<and> amount mixedMatrix ''ghost'' ''d1'' In = 4
   \<and> quantity (items (snd (handleUpdateInventory exUuid ''t1'' mixedMatrix ''2024-05-01''
         (0, exState))) ! 0) = 12
   \<and> length (filter (\<lambda>r. itemId r = ''i1'' \<and> departmentId r = ''d1'' \<and> type_r r = In)
        (newHistoryRecords exUuid ''t1'' mixedMatrix ''2024-05-01'' (0, exState))) = 1
   \<and> map keyOf (newHistoryRecords exUuid ''t1'' mixedMatrix ''2024-05-01'' (0, exState))
       = [(''i1'', ''d1'', In, 3), (''i1'', ''d1'', Out, 1)]
   \<and> handleUpdateInventory exUuid ''t1'' ghostMatrix ''2024-05-01'' (0, exState) = (0, exState)"
proof -
  have wf: "wfMatrix mixedMatrix" by (simp add: wfMatrix_def mixedMatrix_def)
  have fi: "findIndex (\<lambda>x. id_i x = ''i1'') (items exState) = Some 0"
    by (simp add: exState_def exItem_def)
  have kn: "knownItem (items exState) ''i1''" "\<not> knownItem (items exState) ''ghost''"
    by (simp_all add: knownItem_def exState_def exItem_def)
  have a: "amount mixedMatrix ''i1'' ''d1'' In = 3" "itemNet mixedMatrix ''i1'' = 2"
    "amount mixedMatrix ''ghost'' ''d1'' In = 4"
    by (simp_all add: amount_def deptAmount_def entryAmount_def itemNet_def netOf_def mixedMatrix_def)
  have q: "quantity (items exState ! 0) = 10" by (simp add: exState_def exItem_def)
  have tr: "matrixTriples (map id_i (items exState)) mixedMatrix
              = [(''i1'', ''d1'', In, 3), (''i1'', ''d1'', Out, 1)]"
    by (simp add: matrixTriples_def deptTriples_def entryTriples_def mixedMatrix_def exState_def
          exItem_def)
  have gh: "list_all (\<lambda>p. \<not> knownItem (items exState) (fst p)) ghostMatrix"
    by (simp add: ghostMatrix_def kn)
  note t1 = commit_skips_unknown_items [of exUuid "''t1''" mixedMatrix "''2024-05-01''" 0 exState
      0 "''i1''" "''d1''" In]
  note t2 = commit_skips_unknown_items [of exUuid "''t1''" ghostMatrix "''2024-05-01''" 0 exState]
  have "wfMatrix mixedMatrix \<and> findIndex (\<lambda>x. id_i x = ''i1'') (items exState) = Some 0 \<longrightarrow>
        quantity (items (snd (handleUpdateInventory exUuid ''t1'' mixedMatrix ''2024-05-01''
            (0, exState))) ! 0) = quantity (items exState ! 0) + itemNet mixedMatrix ''i1''
        \<and> length (filter (\<lambda>r. itemId r = ''i1'' \<and> departmentId r = ''d1'' \<and> type_r r = In)
             (newHistoryRecords exUuid ''t1'' mixedMatrix ''2024-05-01'' (0, exState))) =
            (if 0 < amount mixedMatrix ''i1'' ''d1'' In then 1 else 0)"
    using t1 by (elim conjE)
  then have r1: "quantity (items (snd (handleUpdateInventory exUuid ''t1'' mixedMatrix ''2024-05-01''
         (0, exState))) ! 0) = 12
     \<and> length (filter (\<lambda>r. itemId r = ''i1'' \<and> departmentId r = ''d1'' \<and> type_r r = In)
        (newHistoryRecords exUuid ''t1'' mixedMatrix ''2024-05-01'' (0, exState))) = 1"
    using wf fi by (simp add: a q)
  have "map keyOf (newHistoryRecords exUuid ''t1'' mixedMatrix ''2024-05-01'' (0, exState))
       = matrixTriples (map id_i (items exState)) mixedMatrix"
    using t1 by (elim conjE)
  then have r2: "map keyOf (newHistoryRecords exUuid ''t1'' mixedMatrix ''2024-05-01'' (0, exState))
       = [(''i1'', ''d1'', In, 3), (''i1'', ''d1'', Out, 1)]"
    by (simp only: tr)
  have "list_all (\<lambda>p. \<not> knownItem (items exState) (fst p)) ghostMatrix \<longrightarrow>
        handleUpdateInventory exUuid ''t1'' ghostMatrix ''2024-05-01'' (0, exState) = (0, exState)"
    using t2 by blast
  then have r3: "handleUpdateInventory exUuid ''t1'' ghostMatrix ''2024-05-01'' (0, exState)
                   = (0, exState)"
    using gh by blast
  from kn a(3) r1 r2 r3 show ?thesis by blast
qed

subsection \<open>Granularity of the ledger records\<close>

text \<open>
  Claim C2, as amended. For a draft matrix that holds each key once and for every date, the
  commit puts its new records in front of the ledger, and among the new records there is
  exactly one for every (item, department, direction) triple whose item is in the catalog
  and whose quantity in the draft is positive, and none for any other triple (so a cell with
  positive in and positive out gives two records and a zero amount gives none); every new
  record carries the commit's date and the draft's amount for its triple.
\<close>

theorem commit_record_granularity:
  assumes "wfMatrix m"
  shows "history (snd (handleUpdateInventory uuid ts m dt (n, s))) =
           newHistoryRecords uuid ts m dt (n, s) @ history s
         \<and> length (filter (\<lambda>r. itemId r = i \<and> departmentId r = d \<and> type_r r = ty)
                     (newHistoryRecords uuid ts m dt (n, s))) =
             (if knownItem (items s) i \<and> 0 < amount m i d ty then 1 else 0)
         \<and> (\<forall>r \<in> set (newHistoryRecords uuid ts m dt (n, s)).
               date r = dt \<and> quantity_r r = amount m (itemId r) (departmentId r) (type_r r))"
proof -
  let ?new = "newHistoryRecords uuid ts m dt (n, s)"
  have key: "map keyOf ?new = matrixTriples (map id_i (items s)) m"
    by (rule newHistoryRecords_key)
  have "length (filter (\<lambda>r. itemId r = i \<and> departmentId r = d \<and> type_r r = ty) ?new) =
          length (filter (hits i d ty) (map keyOf ?new))"
    by (simp add: filter_map comp_def hits_def keyOf_def)
  also have "\<dots> = (if knownItem (items s) i \<and> 0 < amount m i d ty then 1 else 0)"
    unfolding key knownItem_def by (rule matrixTriples_count [OF assms])
  finally have cnt: "length (filter (\<lambda>r. itemId r = i \<and> departmentId r = d \<and> type_r r = ty) ?new) =
          (if knownItem (items s) i \<and> 0 < amount m i d ty then 1 else 0)" .
  have each: "date r = dt \<and> quantity_r r = amount m (itemId r) (departmentId r) (type_r r)"
    if r: "r \<in> set ?new" for r
  proof -
    have "keyOf r \<in> set (matrixTriples (map id_i (items s)) m)"
      using r key by (metis image_eqI set_map)
    from matrixTriples_amount [OF assms this] newHistoryRecords_date [OF r]
    show ?thesis by (simp add: keyOf_def)
  qed
  show ?thesis using cnt each by (simp add: handle_history)
qed

text \<open>The scenario \<open>in = 3\<close>, \<open>out = 1\<close> for (i1, d1): one record per direction, none for d2.\<close>

theorem commit_record_granularity_witness:
  "length (filter (\<lambda>r. itemId r = ''i1'' \<and> departmentId r = ''d1'' \<and> type_r r = In)
      (newHistoryRecords exUuid ''t1'' exMatrix ''2024-05-01'' (0, exState))) = 1
   \<and> length (filter (\<lambda>r. itemId r = ''i1'' \<and> departmentId r = ''d1'' \<and> type_r r = Out)
      (newHistoryRecords exUuid ''t1'' exMatrix ''2024-05-01'' (0, exState))) = 1
   \<and> length (filter (\<lambda>r. itemId r = ''i1'' \<and> departmentId r = ''d2'' \<and> type_r r = Out)
      (newHistoryRecords exUuid ''t1'' exMatrix ''2024-05-01'' (0, exState))) = 0"
proof -
  have wf: "wfMatrix exMatrix" by (simp add: wfMatrix_def exMatrix_def)
  have a: "amount exMatrix ''i1'' ''d1'' In = 3" "amount exMatrix ''i1'' ''d1'' Out = 1"
    "amount exMatrix ''i1'' ''d2'' Out = 0"
    by (simp_all add: amount_def deptAmount_def entryAmount_def exMatrix_def)
  have k: "knownItem (items exState) ''i1''" by (simp add: knownItem_def exState_def exItem_def)
  show ?thesis
    using commit_record_granularity [OF wf, of exUuid "''t1''" "''2024-05-01''" 0 exState "''i1''" "''d1''" In]
      commit_record_granularity [OF wf, of exUuid "''t1''" "''2024-05-01''" 0 exState "''i1''" "''d1''" Out]
      commit_record_granularity [OF wf, of exUuid "''t1''" "''2024-05-01''" 0 exState "''i1''" "''d2''" Out]
    by (simp add: a k)
qed

text \<open>
  The claim as stated, "one record per triple whose quantity is nonzero", fails at an item
  that is not in the catalog (in = 3, no record) and at a negative amount (in = -2, no
  record).
\<close>

theorem commit_record_granularity_counterexample:
  "amount ghostMatrix ''ghost'' ''d1'' In \<noteq> 0
   \<and> history (snd (handleUpdateInventory exUuid ''t1'' ghostMatrix ''2024-05-01'' (0, exState))) = []
   \<and> amount negMatrix ''i1'' ''d1'' In \<noteq> 0
   \<and> history (snd (handleUpdateInventory exUuid ''t1'' negMatrix ''2024-05-01'' (0, exState))) = []"
  by (simp add: amount_def deptAmount_def entryAmount_def ghostMatrix_def negMatrix_def handleUpdateInventory_def exState_def
        exItem_def Let_def deptNameOf_def)

subsection \<open>No validation at commit\<close>

text \<open>
  Claim C7, as amended. The commit has no failure path and validates nothing. For a draft
  matrix that holds each key once and an item found in the catalog: every record it creates
  has a positive quantity, a non-positive in or out amount creates no record for its triple,
  and the amount still enters the net change \<open>\<Sigma>(in) - \<Sigma>(out)\<close> that is added to the item's
  quantity.
\<close>

theorem commit_no_validation:
  assumes "wfMatrix m" and "findIndex (\<lambda>x. id_i x = i) (items s) = Some k"
  shows "(\<forall>r \<in> set (newHistoryRecords uuid ts m dt (n, s)). 0 < quantity_r r)
         \<and> (amount m i d ty \<le> 0 \<longrightarrow>
              \<not> (\<exists>r \<in> set (newHistoryRecords uuid ts m dt (n, s)).
                    itemId r = i \<and> departmentId r = d \<and> type_r r = ty))
         \<and> quantity (items (snd (handleUpdateInventory uuid ts m dt (n, s))) ! k) =
             quantity (items s ! k) + itemNet m i"
proof -
  let ?new = "newHistoryRecords uuid ts m dt (n, s)"
  have key: "map keyOf ?new = matrixTriples (map id_i (items s)) m"
    by (rule newHistoryRecords_key)
  have pos: "0 < quantity_r r" if r: "r \<in> set ?new" for r
  proof -
    have "keyOf r \<in> set (matrixTriples (map id_i (items s)) m)"
      using r key by (metis image_eqI set_map)
    from matrixTriples_amount [OF assms(1) this] show ?thesis by (simp add: keyOf_def)
  qed
  have none: "\<not> (\<exists>r \<in> set ?new. itemId r = i \<and> departmentId r = d \<and> type_r r = ty)"
    if le: "amount m i d ty \<le> 0"
  proof
    assume "\<exists>r \<in> set ?new. itemId r = i \<and> departmentId r = d \<and> type_r r = ty"
    then obtain r where r: "r \<in> set ?new" "itemId r = i" "departmentId r = d" "type_r r = ty"
      by blast
    have "keyOf r \<in> set (matrixTriples (map id_i (items s)) m)"
      using r(1) key by (metis image_eqI set_map)
    from matrixTriples_amount [OF assms(1) this] r le show False by (simp add: keyOf_def)
  qed
  have dist: "distinct (map fst m)" using assms(1) by (simp add: wfMatrix_def)
  show ?thesis
    using pos none handle_quantity [OF assms(2) dist, of uuid ts dt n] by blast
qed

text \<open>The amount \<open>in = -2\<close> creates no record and lowers the quantity from 10 to 8.\<close>

theorem commit_no_validation_witness:
  "quantity (items (snd (handleUpdateInventory exUuid ''t1'' negMatrix ''2024-05-01'' (0, exState))) ! 0) = 8
   \<and> \<not> (\<exists>r \<in> set (newHistoryRecords exUuid ''t1'' negMatrix ''2024-05-01'' (0, exState)).
          itemId r = ''i1'' \<and> departmentId r = ''d1'' \<and> type_r r = In)"
proof -
  have wf: "wfMatrix negMatrix" by (simp add: wfMatrix_def negMatrix_def)
  have fi: "findIndex (\<lambda>x. id_i x = ''i1'') (items exState) = Some 0"
    by (simp add: exState_def exItem_def)
  have a: "amount negMatrix ''i1'' ''d1'' In = - 2" "itemNet negMatrix ''i1'' = - 2"
    by (simp_all add: amount_def deptAmount_def entryAmount_def itemNet_def netOf_def negMatrix_def)
  have q: "quantity (items exState ! 0) = 10" by (simp add: exState_def exItem_def)
  show ?thesis
    using commit_no_validation [OF wf fi, of exUuid "''t1''" "''2024-05-01''" 0 "''d1''" In]
    by (simp add: a q)
qed

text \<open>
  The claim as stated, "a commit with a non-positive amount is rejected", fails: the commit
  of \<open>in = -2\<close> is applied and changes the catalog.
\<close>

theorem commit_rejects_counterexample:
  "items (snd (handleUpdateInventory exUuid ''t1'' negMatrix ''2024-05-01'' (0, exState)))
     = [exItem \<lparr> quantity := 8, lastUpdated := ''t1'' \<rparr>]
   \<and> items (snd (handleUpdateInventory exUuid ''t1'' negMatrix ''2024-05-01'' (0, exState)))
     \<noteq> items exState"
  by (simp add: negMatrix_def handleUpdateInventory_def exState_def exItem_def Let_def
        deptNameOf_def)

subsection \<open>Reversal of a ledger record\<close>

lemma find_mem: "find P xs = Some x \<Longrightarrow> x \<in> set xs \<and> P x"
  by (induction xs) (auto split: if_splits)

lemma map_if_unchanged:
  "(\<And>x. x \<in> set xs \<Longrightarrow> \<not> P x) \<Longrightarrow> map (\<lambda>x. if P x then f x else x) xs = xs"
  by (induction xs) auto

text \<open>
  Claim C4. For a record of the ledger (the one \<^verbatim>\<open>history.find\<close> returns for the id),
  deleting it removes it from the ledger whatever the answer to the revert question is, and
  keeps every record with another id. With revert, the quantity of the item the record
  refers to changes by minus the record's quantity for a record of type in and by plus the
  quantity for type out, and every other item is unchanged; without revert every item is
  unchanged; and when no item of the catalog has the record's item id the items are
  unchanged while the record is deleted all the same.
\<close>

theorem delete_record_reversal:
  assumes "find (\<lambda>x. id_r x = rid) (history s) = Some r"
  shows "history (handleDeleteHistoryRecord rid revert s) = filter (\<lambda>x. id_r x \<noteq> rid) (history s)
         \<and> r \<notin> set (history (handleDeleteHistoryRecord rid revert s))
         \<and> departments (handleDeleteHistoryRecord rid revert s) = departments s
         \<and> length (items (handleDeleteHistoryRecord rid revert s)) = length (items s)
         \<and> (\<forall>k < length (items s).
               items (handleDeleteHistoryRecord rid revert s) ! k =
                 (if revert \<and> id_i (items s ! k) = itemId r
                  then (items s ! k)\<lparr> quantity := quantity (items s ! k) + reversalOf r \<rparr>
                  else items s ! k))
         \<and> (\<not> revert \<longrightarrow> items (handleDeleteHistoryRecord rid revert s) = items s)
         \<and> (\<not> knownItem (items s) (itemId r) \<longrightarrow>
               items (handleDeleteHistoryRecord rid revert s) = items s)"
proof -
  have rid: "id_r r = rid" using find_mem [OF assms] by simp
  have rev: "(if type_r r = In then - quantity_r r else quantity_r r) = reversalOf r"
    by (cases "type_r r") (simp_all add: reversalOf_def)
  have unknown: "map (\<lambda>item. if id_i item = itemId r then f item else item) (items s) = items s"
    if "\<not> knownItem (items s) (itemId r)" for f
  proof (rule map_if_unchanged)
    fix x assume "x \<in> set (items s)"
    then have "id_i x \<in> set (map id_i (items s))" by simp
    then show "id_i x \<noteq> itemId r" using that unfolding knownItem_def by metis
  qed
  show ?thesis
    using assms rid unknown
    by (auto simp: handleDeleteHistoryRecord_def Let_def rev)
qed

text \<open>
  The record of type in and quantity 5 on the item with quantity 10: revert gives 5, no
  revert leaves 10, and with an empty catalog the record is still deleted.
\<close>

theorem delete_record_reversal_witness:
  "quantity (items (handleDeleteHistoryRecord ''r1'' True (exState\<lparr> history := [exRecord] \<rparr>)) ! 0) = 5
   \<and> quantity (items (handleDeleteHistoryRecord ''r1'' False (exState\<lparr> history := [exRecord] \<rparr>)) ! 0) = 10
   \<and> history (handleDeleteHistoryRecord ''r1'' True (exState\<lparr> history := [exRecord] \<rparr>)) = []
   \<and> items (handleDeleteHistoryRecord ''r1'' True
        (exState\<lparr> items := [], history := [exRecord] \<rparr>)) = []"
proof -
  have f: "find (\<lambda>x. id_r x = ''r1'') (history (exState\<lparr> history := [exRecord] \<rparr>)) = Some exRecord"
    "find (\<lambda>x. id_r x = ''r1'') (history (exState\<lparr> items := [], history := [exRecord] \<rparr>)) = Some exRecord"
    by (simp_all add: exRecord_def mkRecord_def)
  show ?thesis
    using delete_record_reversal [OF f(1), of True] delete_record_reversal [OF f(1), of False]
      delete_record_reversal [OF f(2), of True]
    by (simp add: exState_def exItem_def exRecord_def mkRecord_def reversalOf_def knownItem_def)
qed


subsection \<open>Replay of the committed history\<close>

lemma cellAt_addRecord:
  "cellAt (addRecord h m) i d =
     (if itemId h = i \<and> departmentId h = d then Some (bump h (orZero (cellAt m i d)))
      else cellAt m i d)"
  by (cases "type_r h")
     (auto simp: cellAt_def addRecord_def Let_def update_conv' bump_def orZero_def
           split: option.splits)

lemma row_addRecord:
  "map_of (addRecord h m) i = None \<longleftrightarrow> itemId h \<noteq> i \<and> map_of m i = None"
  by (auto simp: addRecord_def Let_def update_conv')

lemma cellAt_foldl:
  "cellAt (foldl (\<lambda>matrix h. addRecord h matrix) m hs) i d =
     (if filter (\<lambda>h. itemId h = i \<and> departmentId h = d) hs = [] then cellAt m i d
      else Some \<lparr> inQty = inQty (orZero (cellAt m i d))
                     + sumQty In (filter (\<lambda>h. itemId h = i \<and> departmentId h = d) hs),
                  outQty = outQty (orZero (cellAt m i d))
                     + sumQty Out (filter (\<lambda>h. itemId h = i \<and> departmentId h = d) hs) \<rparr>)"
proof (induction hs arbitrary: m)
  case Nil
  show ?case by simp
next
  case (Cons h hs)
  show ?case
    by (cases "type_r h")
       (auto simp: Cons.IH cellAt_addRecord sumQty_def bump_def orZero_def split: option.splits)
qed

lemma row_foldl:
  "map_of (foldl (\<lambda>matrix h. addRecord h matrix) m hs) i = None \<longleftrightarrow>
     (\<forall>h\<in>set hs. itemId h \<noteq> i) \<and> map_of m i = None"
  by (induction hs arbitrary: m) (auto simp: row_addRecord)

lemma replay_cell:
  "cellAt (replayCommitted h D) i d =
     (if filter (matching D i d) h = [] then None
      else Some \<lparr> inQty = sumQty In (filter (matching D i d) h),
                  outQty = sumQty Out (filter (matching D i d) h) \<rparr>)"
proof -
  have f: "filter (\<lambda>h. itemId h = i \<and> departmentId h = d) (filter (\<lambda>h. date h = D) h)
             = filter (matching D i d) h"
    by (induction h) (auto simp: matching_def)
  have z: "cellAt [] i d = None" by (simp add: cellAt_def)
  have r: "replayCommitted h D = foldl (\<lambda>matrix h. addRecord h matrix) [] (filter (\<lambda>h. date h = D) h)"
    by (simp add: replayCommitted_def reconstructHistoryForDate_def Let_def)
  show ?thesis
    unfolding r cellAt_foldl f z by (simp add: orZero_def)
qed

lemma replay_row:
  "map_of (replayCommitted h D) i = None \<longleftrightarrow> (\<forall>r\<in>set h. \<not> (date r = D \<and> itemId r = i))"
  by (auto simp: replayCommitted_def reconstructHistoryForDate_def Let_def row_foldl)

lemma absMatrix_eqI:
  assumes "\<And>i. map_of m i = None \<longleftrightarrow> map_of m' i = None"
      and "\<And>i d. cellAt m i d = cellAt m' i d"
  shows "absMatrix m = absMatrix m'"
proof
  fix i
  show "absMatrix m i = absMatrix m' i"
  proof (cases "map_of m i")
    case None
    then show ?thesis using assms(1) [of i] by (simp add: absMatrix_def)
  next
    case (Some row)
    then obtain row' where r': "map_of m' i = Some row'" using assms(1) [of i] by auto
    have "map_of row d = map_of row' d" for d
      using assms(2) [of i d] Some r' by (simp add: cellAt_def)
    then have "map_of row = map_of row'" by (rule ext)
    then show ?thesis using Some r' by (simp add: absMatrix_def)
  qed
qed

lemma filter_mset_cong_list:
  assumes "mset xs = mset ys"
  shows "mset (filter P xs) = mset (filter P ys)"
  using assms by (metis mset_filter)

lemma sumQty_perm: "mset xs = mset ys \<Longrightarrow> sumQty ty xs = sumQty ty ys"
proof -
  assume a: "mset xs = mset ys"
  have "mset (map quantity_r (filter (\<lambda>r. type_r r = ty) xs))
          = mset (map quantity_r (filter (\<lambda>r. type_r r = ty) ys))"
    using filter_mset_cong_list [OF a] by (metis mset_map)
  then show ?thesis unfolding sumQty_def by (metis sum_mset_sum_list)
qed

lemma replay_perm:
  assumes "mset h = mset h'"
  shows "absMatrix (replayCommitted h' D) = absMatrix (replayCommitted h D)"
proof (rule absMatrix_eqI)
  fix i
  have "set h = set h'" using assms by (rule mset_eq_setD)
  then show "map_of (replayCommitted h' D) i = None \<longleftrightarrow> map_of (replayCommitted h D) i = None"
    by (simp add: replay_row)
next
  fix i d
  have m: "mset (filter (matching D i d) h') = mset (filter (matching D i d) h)"
    using assms by (metis mset_filter)
  have e: "filter (matching D i d) h' = [] \<longleftrightarrow> filter (matching D i d) h = []"
    using m by (metis mset_zero_iff)
  show "cellAt (replayCommitted h' D) i d = cellAt (replayCommitted h D) i d"
    using e sumQty_perm [OF m] by (simp add: replay_cell)
qed

text \<open>
  Claim C3. The replay of a date keeps the ledger records whose date equals the target
  date and sums in and out independently per (item, department) pair: the cell of a pair is
  absent when no record of the date names the pair, and holds the two sums otherwise. Any
  permutation of the ledger gives the same matrix (the same nested mapping). The replay is
  a function of the ledger and the date alone, so the committed matrix the component
  stores after replaying is the same after a second replay with no commit in between.
\<close>

theorem replay_idempotent_commutative:
  "cellAt (replayCommitted h D) i d =
     (if \<exists>r\<in>set h. date r = D \<and> itemId r = i \<and> departmentId r = d
      then Some \<lparr> inQty = sumQty In (filter (matching D i d) h),
                  outQty = sumQty Out (filter (matching D i d) h) \<rparr>
      else None)
   \<and> (mset h = mset h' \<longrightarrow> absMatrix (replayCommitted h' D) = absMatrix (replayCommitted h D))
   \<and> committedTransactions (historyEffect h st) = replayCommitted h (date_t st)
   \<and> committedTransactions (historyEffect h (historyEffect h st))
       = committedTransactions (historyEffect h st)"
proof -
  have "filter (matching D i d) h = [] \<longleftrightarrow>
          \<not> (\<exists>r\<in>set h. date r = D \<and> itemId r = i \<and> departmentId r = d)"
    by (auto simp: filter_empty_conv matching_def)
  then have c: "cellAt (replayCommitted h D) i d =
     (if \<exists>r\<in>set h. date r = D \<and> itemId r = i \<and> departmentId r = d
      then Some \<lparr> inQty = sumQty In (filter (matching D i d) h),
                  outQty = sumQty Out (filter (matching D i d) h) \<rparr>
      else None)"
    by (simp add: replay_cell)
  have e: "committedTransactions (historyEffect hh s) = replayCommitted hh (date_t s)"
       "date_t (historyEffect hh s) = date_t s" for hh s
    by (simp_all add: historyEffect_def replayCommitted_def Let_def)
  show ?thesis using c replay_perm [of h h' D] by (simp add: e)
qed

text \<open>
  The replay of the first date gives \<open>in = 3\<close>, \<open>out = 1\<close> for (i1, d1), and the reversed
  ledger gives the same matrix.
\<close>

theorem replay_idempotent_commutative_witness:
  "cellAt (replayCommitted exLedger ''2024-05-01'') ''i1'' ''d1'' = Some \<lparr> inQty = 3, outQty = 1 \<rparr>
   \<and> absMatrix (replayCommitted (rev exLedger) ''2024-05-01'')
       = absMatrix (replayCommitted exLedger ''2024-05-01'')"
  using replay_idempotent_commutative [of exLedger "''2024-05-01''" "''i1''" "''d1''" "rev exLedger"]
  by (simp add: exLedger_def mkRecord_def matching_def sumQty_def)


subsection \<open>The transaction table: date switch, staging and the draft matrix\<close>

lemma set_setAdd: "set (setAdd x xs) = insert x (set xs)"
  by (auto simp: setAdd_def)

lemma distinct_setAdd: "distinct xs \<Longrightarrow> distinct (setAdd x xs)"
  by (simp add: setAdd_def)

lemma set_foldl_setAdd:
  "set (foldl (\<lambda>acc x. setAdd (f x) acc) acc0 xs) = set acc0 \<union> f ` set xs"
  by (induction xs arbitrary: acc0) (auto simp: set_setAdd)

lemma distinct_foldl_setAdd:
  "distinct acc0 \<Longrightarrow> distinct (foldl (\<lambda>acc x. setAdd (f x) acc) acc0 xs)"
  by (induction xs arbitrary: acc0) (simp_all add: distinct_setAdd)

lemma set_arrayFromSet: "set (arrayFromSet xs) = set xs"
  using set_foldl_setAdd [of "\<lambda>x. x" "[]" xs] by (simp add: arrayFromSet_def)

lemma distinct_arrayFromSet: "distinct (arrayFromSet xs)"
  using distinct_foldl_setAdd [of "[]" "\<lambda>x. x" xs] by (simp add: arrayFromSet_def)

lemma set_historyItems:
  "set (snd (reconstructHistoryForDate h D)) = {itemId r | r. r \<in> set h \<and> date r = D}"
  by (auto simp: reconstructHistoryForDate_def Let_def set_foldl_setAdd)

lemma switchDate_drafts:
  "drafts (switchDate h newDate st) =
     (drafts st)(date_t st \<mapsto> \<lparr> selectedItemIds_s = selectedItemIds st,
                                 newTransactions_s = newTransactions st,
                                 activeRows_s = activeRows st \<rparr>)"
  by (simp add: switchDate_def Let_def split: option.splits)

lemma switchDate_date: "date_t (switchDate h newDate st) = newDate"
  by (simp add: switchDate_def Let_def split: option.splits)

lemma switchDate_restore:
  assumes "drafts st newDate = Some draft"
  shows "newTransactions (switchDate h newDate st) = newTransactions_s draft"
    and "activeRows (switchDate h newDate st) = activeRows_s draft"
    and "selectedItemIds (switchDate h newDate st) =
           arrayFromSet (snd (reconstructHistoryForDate h newDate) @ selectedItemIds_s draft)"
    and "committedTransactions (switchDate h newDate st) = replayCommitted h newDate"
  using assms by (simp_all add: switchDate_def Let_def replayCommitted_def)

text \<open>
  Claim C5. From any state of the table on date D1 (in particular after staging entries),
  switching to a date D2 and then back to D1 restores exactly the staged draft matrix and
  the open input rows of D1; the committed matrix is the replay of the ledger for D1, and
  the displayed item set is the union of the items of the ledger records of D1 and the item
  set saved in D1's snapshot. (The ledger may differ between the two switches; the
  statement needs no assumption on D2.)
\<close>

theorem switch_date_round_trip:
  "newTransactions (switchDate h2 (date_t st) (switchDate h1 D2 st)) = newTransactions st
       \<and> activeRows (switchDate h2 (date_t st) (switchDate h1 D2 st)) = activeRows st
       \<and> date_t (switchDate h2 (date_t st) (switchDate h1 D2 st)) = date_t st
       \<and> committedTransactions (switchDate h2 (date_t st) (switchDate h1 D2 st))
           = replayCommitted h2 (date_t st)
       \<and> selectedItemIds (switchDate h2 (date_t st) (switchDate h1 D2 st))
           = arrayFromSet (snd (reconstructHistoryForDate h2 (date_t st)) @ selectedItemIds st)
       \<and> set (selectedItemIds (switchDate h2 (date_t st) (switchDate h1 D2 st)))
           = {itemId r | r. r \<in> set h2 \<and> date r = date_t st} \<union> set (selectedItemIds st)"
proof -
  let ?snap = "\<lparr> selectedItemIds_s = selectedItemIds st, newTransactions_s = newTransactions st,
                 activeRows_s = activeRows st \<rparr>"
  have d: "drafts (switchDate h1 D2 st) (date_t st) = Some ?snap"
    by (simp add: switchDate_drafts)
  note r = switchDate_restore [OF d, of h2]
  show ?thesis
    by (simp add: r switchDate_date set_arrayFromSet set_historyItems)
qed

lemma parse3: "parseInt ''3'' = Some 3"
  by (simp add: parseInt_def isWhiteSpace_def digitValue_def Let_def)

lemma parse_more: "parseInt ''  -42px'' = Some (- 42)" "parseInt ''0x1F'' = Some 31"
  "parseInt ''abc'' = None" "parseInt '''' = None" "parseInt ''1.5'' = Some 1"
  by (simp_all add: parseInt_def isWhiteSpace_def digitValue_def Let_def)

lemma exStaged_new: "newTransactions exStaged = [(''i1'', [(''d1'', \<lparr> inQty = 3, outQty = 0 \<rparr>)])]"
  by (simp add: exStaged_def saveTransaction_def exTable_def parse3 Let_def)

lemma exRemoved_new: "newTransactions exRemoved = [(''i1'', [])]"
  by (simp add: exRemoved_def removeDraftTransaction_def exStaged_new Let_def)

lemma draftOk_iff: "draftOk m \<longleftrightarrow> wfMatrix m \<and> nonNegMatrix m \<and> noZeroCells m"
  by (induction m)
     (auto simp: draftOk_def wfMatrix_def nonNegMatrix_def noZeroCells_def rowOk_def cellOk_def
        list_all_iff)

lemma set_update_subset: "set (AList.update k v xs) \<subseteq> insert (k, v) (set xs)"
  by (induction xs) auto

lemma set_delete_subset: "set (AList.delete k xs) \<subseteq> set xs"
  by (auto simp: AList.delete_eq)

lemma list_all_update: "list_all P xs \<Longrightarrow> P (k, v) \<Longrightarrow> list_all P (AList.update k v xs)"
  using set_update_subset [of k v xs] by (auto simp: list_all_iff)

lemma list_all_delete: "list_all P xs \<Longrightarrow> list_all P (AList.delete k xs)"
  using set_delete_subset [of k xs] by (auto simp: list_all_iff)

lemma rowOk_Nil: "rowOk []"
  by (simp add: rowOk_def)

lemma rowOk_update: "rowOk row \<Longrightarrow> cellOk c \<Longrightarrow> rowOk (AList.update d c row)"
  by (simp add: rowOk_def distinct_update list_all_update)

lemma rowOk_delete: "rowOk row \<Longrightarrow> rowOk (AList.delete d row)"
  by (simp add: rowOk_def distinct_delete list_all_delete)

lemma rowOk_cell: "rowOk row \<Longrightarrow> map_of row d = Some c \<Longrightarrow> cellOk c"
  by (auto simp: rowOk_def list_all_iff dest!: map_of_SomeD)

lemma draftOk_update: "draftOk m \<Longrightarrow> rowOk row \<Longrightarrow> draftOk (AList.update i row m)"
  by (simp add: draftOk_def distinct_update list_all_update)

lemma draftOk_delete: "draftOk m \<Longrightarrow> draftOk (AList.delete i m)"
  by (simp add: draftOk_def distinct_delete list_all_delete)

lemma draftOk_row: "draftOk m \<Longrightarrow> map_of m i = Some row \<Longrightarrow> rowOk row"
  by (auto simp: draftOk_def list_all_iff dest!: map_of_SomeD)

lemma saveTransaction_cases:
  obtains (unchanged) "saveTransaction iid st = st"
  | (staged) f q where "activeRows st iid = Some f" and "0 < q"
      and "newTransactions (saveTransaction iid st) =
             AList.update iid
               (AList.update (deptId f)
                  (addQty (type_f f) q (cellOf (rowOf (newTransactions st) iid) (deptId f)))
                  (rowOf (newTransactions st) iid))
               (newTransactions st)"
proof (cases "activeRows st iid")
  case None
  then have "saveTransaction iid st = st" by (simp add: saveTransaction_def)
  then show ?thesis by (rule unchanged)
next
  case row: (Some f)
  show ?thesis
  proof (cases "deptId f = [] \<or> qty f = []")
    case True
    then have "saveTransaction iid st = st" using row by (auto simp: saveTransaction_def)
    then show ?thesis by (rule unchanged)
  next
    case filled: False
    show ?thesis
    proof (cases "parseInt (qty f)")
      case None
      then have "saveTransaction iid st = st" using row filled by (simp add: saveTransaction_def)
      then show ?thesis by (rule unchanged)
    next
      case (Some q)
      show ?thesis
      proof (cases "q \<le> 0")
        case True
        then have "saveTransaction iid st = st"
          using row filled Some by (simp add: saveTransaction_def)
        then show ?thesis by (rule unchanged)
      next
        case False
        have "newTransactions (saveTransaction iid st) =
             AList.update iid
               (AList.update (deptId f)
                  (addQty (type_f f) q (cellOf (rowOf (newTransactions st) iid) (deptId f)))
                  (rowOf (newTransactions st) iid))
               (newTransactions st)"
          using row filled Some False
          by (simp add: saveTransaction_def Let_def addQty_def cellOf_def rowOf_def)
        with row False show ?thesis by (intro staged [of f q]) simp_all
      qed
    qed
  qed
qed

lemma rowOk_rowOf: "draftOk m \<Longrightarrow> rowOk (rowOf m i)"
  by (auto simp: rowOf_def rowOk_Nil dest: draftOk_row split: option.splits)

lemma cellOf_nonneg: "rowOk row \<Longrightarrow> 0 \<le> inQty (cellOf row d) \<and> 0 \<le> outQty (cellOf row d)"
  by (auto simp: cellOf_def cellOk_def dest: rowOk_cell split: option.splits)

lemma saveTransaction_draftOk:
  assumes "draftOk (newTransactions st)"
  shows "draftOk (newTransactions (saveTransaction iid st))"
proof (cases rule: saveTransaction_cases [of iid st])
  case unchanged
  then show ?thesis using assms by simp
next
  case (staged f q)
  have row: "rowOk (rowOf (newTransactions st) iid)" by (rule rowOk_rowOf [OF assms])
  have cell: "cellOk (addQty (type_f f) q (cellOf (rowOf (newTransactions st) iid) (deptId f)))"
    using cellOf_nonneg [OF row, of "deptId f"] staged(2)
    by (cases "type_f f") (simp_all add: cellOk_def addQty_def)
  show ?thesis
    unfolding staged(3) by (intro draftOk_update assms rowOk_update row cell)
qed

lemma removeDraftTransaction_draftOk:
  assumes "draftOk (newTransactions st)"
  shows "draftOk (newTransactions (removeDraftTransaction iid did ty st))"
proof -
  let ?row = "case map_of (newTransactions st) iid of Some t \<Rightarrow> t | None \<Rightarrow> []"
  have row: "rowOk ?row" using rowOk_rowOf [OF assms, of iid] by (simp add: rowOf_def)
  have c: "cellOk c \<Longrightarrow> \<not> (inQty c' = 0 \<and> outQty c' = 0) \<Longrightarrow>
           c' = (case ty of In \<Rightarrow> c\<lparr> inQty := 0 \<rparr> | Out \<Rightarrow> c\<lparr> outQty := 0 \<rparr>) \<Longrightarrow> cellOk c'" for c c'
    by (cases ty) (auto simp: cellOk_def)
  have "rowOk (case map_of ?row did of
               None \<Rightarrow> ?row
             | Some c \<Rightarrow>
                 (let c1 = (case ty of In \<Rightarrow> c\<lparr> inQty := 0 \<rparr> | Out \<Rightarrow> c\<lparr> outQty := 0 \<rparr>)
                  in if inQty c1 = 0 \<and> outQty c1 = 0
                     then AList.delete did ?row
                     else AList.update did c1 ?row))"
  proof (cases "map_of ?row did")
    case None
    then show ?thesis using row by simp
  next
    case (Some c0)
    have ok: "cellOk c0" using row Some by (rule rowOk_cell)
    show ?thesis
      unfolding Some option.case Let_def
      using row ok by (auto intro!: rowOk_delete rowOk_update c [OF ok])
  qed
  then show ?thesis
    using assms by (simp add: removeDraftTransaction_def Let_def draftOk_update)
qed

lemma stage_draftOk:
  "draftOk (newTransactions st) \<Longrightarrow> draftOk (newTransactions (stage ds op st))"
  by (cases op)
     (auto simp: startAddingTransaction_def cancelAddingTransaction_def setRowDeptId_def
        setRowType_def setRowQty_def handleAddItemRow_def handleRemoveItemRow_def
        saveTransaction_draftOk removeDraftTransaction_draftOk draftOk_delete
        split: option.splits)

lemma stage_frame:
  "committedTransactions (stage ds op st) = committedTransactions st
   \<and> date_t (stage ds op st) = date_t st \<and> drafts (stage ds op st) = drafts st"
  by (cases op)
     (auto simp: startAddingTransaction_def cancelAddingTransaction_def setRowDeptId_def
        setRowType_def setRowQty_def handleAddItemRow_def handleRemoveItemRow_def
        saveTransaction_def removeDraftTransaction_def Let_def
        split: option.splits)

lemma stageAll_app: "fst (stageAll ops (n, s, st)) = n \<and> fst (snd (stageAll ops (n, s, st))) = s"
  by (induction ops arbitrary: st) simp_all

lemma stageAll_frame:
  "committedTransactions (snd (snd (stageAll ops (n, s, st)))) = committedTransactions st
   \<and> date_t (snd (snd (stageAll ops (n, s, st)))) = date_t st
   \<and> drafts (snd (snd (stageAll ops (n, s, st)))) = drafts st"
  by (induction ops arbitrary: st) (simp_all add: stage_frame)

text \<open>
  The part of the cleanup invariant that the code keeps: every staging command keeps the
  keys of the draft matrix unique and its amounts non-negative, and leaves no cell with
  \<open>in = 0\<close> and \<open>out = 0\<close>.
\<close>

lemma stageAll_draftOk:
  "draftOk (newTransactions st) \<Longrightarrow> draftOk (newTransactions (snd (snd (stageAll ops (n, s, st)))))"
  by (induction ops arbitrary: st) (simp_all add: stage_draftOk)

text \<open>
  Claim C6. Any sequence of staging commands (opening and editing the inline form, staging
  an entry, removing a staged entry or an item row) leaves the ledger as it is, so the
  replay of every date D gives the same result before and after the sequence, and the
  committed matrix the table displays is unchanged; only a commit changes them.
\<close>

theorem draft_isolation:
  "history (fst (snd (stageAll ops (n, s, st)))) = history s
   \<and> replayCommitted (history (fst (snd (stageAll ops (n, s, st))))) D = replayCommitted (history s) D
   \<and> reconstructHistoryForDate (history (fst (snd (stageAll ops (n, s, st))))) D
       = reconstructHistoryForDate (history s) D
   \<and> committedTransactions (snd (snd (stageAll ops (n, s, st)))) = committedTransactions st"
  by (simp add: stageAll_app stageAll_frame)

lemma exStaged_date: "date_t exStaged = ''2024-05-01''"
  by (simp add: exStaged_def saveTransaction_def exTable_def parse3 Let_def)

lemma exStaged_sel: "selectedItemIds exStaged = [''i1'']"
  by (simp add: exStaged_def saveTransaction_def exTable_def parse3 Let_def)

lemma exStaged_drafts: "drafts exStaged = Map.empty"
  by (simp add: exStaged_def saveTransaction_def exTable_def parse3 Let_def)

text \<open>
  An entry \<open>in 3\<close> staged on the first date is absent from the draft shown on the second
  date and is back after switching back.
\<close>

theorem switch_date_round_trip_witness:
  "newTransactions exStaged = [(''i1'', [(''d1'', \<lparr> inQty = 3, outQty = 0 \<rparr>)])]
   \<and> newTransactions (switchDate exLedger ''2024-05-02'' exStaged) = []
   \<and> newTransactions (switchDate exLedger ''2024-05-01'' (switchDate exLedger ''2024-05-02'' exStaged))
       = [(''i1'', [(''d1'', \<lparr> inQty = 3, outQty = 0 \<rparr>)])]
   \<and> set (selectedItemIds
         (switchDate exLedger ''2024-05-01'' (switchDate exLedger ''2024-05-02'' exStaged)))
       = {''i1''}"
proof -
  have a: "newTransactions (switchDate exLedger ''2024-05-02'' exStaged) = []"
    by (simp add: switchDate_def Let_def exStaged_drafts)
  have b: "{itemId r | r. r \<in> set exLedger \<and> date r = ''2024-05-01''} = {''i1''}"
  proof -
    have "{itemId r | r. r \<in> set exLedger \<and> date r = ''2024-05-01''}
            = itemId ` set (filter (\<lambda>r. date r = ''2024-05-01'') exLedger)"
      by auto
    then show ?thesis by (simp add: exLedger_def mkRecord_def)
  qed
  note t = switch_date_round_trip [of exLedger exStaged exLedger "''2024-05-02''",
      unfolded exStaged_date]
  have n: "newTransactions (switchDate exLedger ''2024-05-01''
              (switchDate exLedger ''2024-05-02'' exStaged)) = newTransactions exStaged"
    using t by (elim conjE)
  have e: "set (selectedItemIds (switchDate exLedger ''2024-05-01''
              (switchDate exLedger ''2024-05-02'' exStaged)))
            = {itemId r | r. r \<in> set exLedger \<and> date r = ''2024-05-01''}
                \<union> set (selectedItemIds exStaged)"
    using t by (elim conjE)
  show ?thesis
    unfolding n e b by (simp add: exStaged_new exStaged_sel a)
qed

text \<open>
  Staging \<open>in 3\<close> leaves the replay of the date empty; the commit that follows makes it
  \<open>in = 3\<close>.
\<close>

theorem draft_isolation_witness:
  "stageAll [Save ''i1''] (0, exState, exTable) = (0, exState, exStaged)
   \<and> replayCommitted (history (fst (snd (stageAll [Save ''i1''] (0, exState, exTable)))))
        ''2024-05-01'' = []
   \<and> replayCommitted (history (fst (snd (handleSubmit exUuid ''t1''
          (stageAll [Save ''i1''] (0, exState, exTable)))))) ''2024-05-01''
       = [(''i1'', [(''d1'', \<lparr> inQty = 3, outQty = 0 \<rparr>)])]"
proof -
  have r0: "replayCommitted (history exState) ''2024-05-01'' = []"
    by (simp add: replayCommitted_def reconstructHistoryForDate_def exState_def)
  have h: "history (fst (snd (handleSubmit exUuid ''t1'' (0, exState, exStaged))))
             = [mkRecord ''r'' ''2024-05-01'' ''t1'' ''i1'' exItem ''d1'' ''Kitchen'' In 3]"
    by (simp add: handleSubmit_def exStaged_new exStaged_date handleUpdateInventory_def
          exState_def exItem_def exUuid_def deptNameOf_def Let_def)
  have r1: "replayCommitted [mkRecord ''r'' ''2024-05-01'' ''t1'' ''i1'' exItem ''d1'' ''Kitchen'' In 3]
              ''2024-05-01'' = [(''i1'', [(''d1'', \<lparr> inQty = 3, outQty = 0 \<rparr>)])]"
    by (simp add: replayCommitted_def reconstructHistoryForDate_def mkRecord_def addRecord_def
          Let_def)
  show ?thesis
    using draft_isolation [of "[Save ''i1'']" 0 exState exTable "''2024-05-01''"]
    by (simp add: exStaged_def [symmetric] r0 h r1)
qed

text \<open>
  Claim C8 fails on the code at the emptied per-item map. Staging \<open>in 3\<close> for (i1, d1) and
  removing the staged entry again deletes the cell but leaves the item's key with an empty
  row, where removing the item row deletes the key. The matrix is then not the empty object
  that \<^verbatim>\<open>handleSubmit\<close> and \<^verbatim>\<open>hasDrafts\<close> test for, so a submit goes through: it creates no
  record and stamps the item's \<^verbatim>\<open>lastUpdated\<close>.
\<close>

theorem remove_draft_leaves_empty_row:
  "newTransactions exStaged = [(''i1'', [(''d1'', \<lparr> inQty = 3, outQty = 0 \<rparr>)])]
   \<and> newTransactions exRemoved = [(''i1'', [])]
   \<and> \<not> noEmptyRows (newTransactions exRemoved)
   \<and> newTransactions (handleRemoveItemRow ''i1'' True exStaged) = []
   \<and> fst (snd (handleSubmit exUuid ''t1'' (0, exState, exRemoved)))
       = exState\<lparr> items := [exItem\<lparr> lastUpdated := ''t1'' \<rparr>] \<rparr>"
  by (simp add: exStaged_new exRemoved_new noEmptyRows_def handleRemoveItemRow_def
        handleSubmit_def handleUpdateInventory_def exState_def exItem_def exRemoved_def
        removeDraftTransaction_def Let_def)


subsection \<open>Restore from a backup file\<close>








end
